theory Spec2Isabelle
  imports Main
begin

section \<open>The acquisition engine of crx-crawler.js\<close>

text \<open>
  The development embeds class \<open>EnhancedCRXCrawler\<close> of
  \<^verbatim>\<open>src/crx-crawler/crx-crawler.js\<close>: the constructor, \<open>downloadExtension\<close>,
  \<open>tryDownloadStrategy\<close> and the four strategies, \<open>downloadFileDirectly\<close>,
  \<open>downloadFileFromBlob\<close>, \<open>updateStrategyStats\<close>, \<open>processBatch\<close> and
  \<open>saveCheckpoint\<close>. Line numbers are those of that file. The direct-API variant of
  the crawler, a second file of the repository, has the same \<open>downloadFileDirectly\<close>
  and \<open>processBatch\<close>, word for word up to the stagger delay.

  Conventions of the embedding.
  \<^item> The mutable parts (\<open>this.stats\<close>, the download directory on disk, and what the
    program is seen doing) are one record \<open>world\<close>, passed through every call.
  \<^item> Whatever the program does that another party answers (an HTTP request, a
    puppeteer session) is a field of the record \<open>env\<close>; each answer may depend on the
    whole world at the time of the call, so on everything that happened before.
  \<^item> An \<open>async\<close> function returns \<open>(error + 'a) \<times> world\<close>: \<open>Inl\<close> is a rejected
    promise (a thrown exception), \<open>Inr\<close> a fulfilled one. A function whose promise may
    never settle (an endless chain of redirects) returns an \<open>option\<close> of that, \<open>None\<close>
    meaning that it never settles.
  \<^item> Counts, sizes and delays are natural numbers. Wall-clock time (\<open>Date.now()\<close>,
    the \<open>duration\<close> field of a result, \<open>stats.startTime\<close>) is left out;
    \<open>stats.total\<close>, which only \<open>crawl\<close> writes and the progress line reads, is left
    out too. A timeout is an answer of the other party (\<open>DownloadTimeout\<close>); which of
    two pending events comes first is not modelled.
  \<^item> The local file system is a map from paths to sizes. Writing a file succeeds;
    \<open>fs.stat\<close> fails exactly when the file is absent.
  \<^item> Of the lines the program prints, the trace keeps the \<open>Processing\<close>, \<open>Trying
    strategy\<close> and \<open>Batch\<close> lines; \<open>console.log\<close> does not raise.
  \<^item> The tasks of one batch, which JavaScript interleaves at their \<open>await\<close>s, run one
    after the other in input order.
\<close>

subsection \<open>Values, errors, results\<close>

text \<open>The value of \<open>options.downloadDir\<close>: a string, or something else (a number).\<close>

datatype jsval = JString string | JNumber int

text \<open>Every \<open>new Error(...)\<close> of the source, and the errors raised by Node and puppeteer.\<close>

datatype error =
    TypeError string                \<comment> \<open>\<open>path.join\<close> on an argument that is not a string\<close>
  | UnknownStrategy string          \<comment> \<open>\<open>Unknown strategy: ...\<close>\<close>
  | HttpStatus nat string           \<comment> \<open>\<open>HTTP <code>: <message>\<close>\<close>
  | DownloadedFileTooSmall          \<comment> \<open>\<open>Downloaded file too small\<close>\<close>
  | DownloadTimeout                 \<comment> \<open>\<open>Download timeout\<close>\<close>
  | BlobFetchFailed nat             \<comment> \<open>\<open>Failed to fetch blob: <status>\<close>\<close>
  | BlobTooSmall                    \<comment> \<open>\<open>Downloaded file is too small, likely an error\<close>\<close>
  | NoDownloadLinkFound             \<comment> \<open>\<open>No download link found\<close>\<close>
  | AllDirectApiEndpointsFailed     \<comment> \<open>\<open>All direct API endpoints failed\<close>\<close>
  | NoLinkOnCRXExtractor            \<comment> \<open>\<open>No download link found on CRXExtractor\<close>\<close>
  | NoLinkOnCRXViewerCom            \<comment> \<open>\<open>No download link found on CRXViewer.com\<close>\<close>
  | AllStrategiesFailed             \<comment> \<open>\<open>All download strategies failed\<close>\<close>
  | External string                 \<comment> \<open>raised outside this file: network, stream, page\<close>

text \<open>What a strategy resolves with: \<open>{success: true, filepath, size}\<close> or
  \<open>{success: false, error}\<close>.\<close>

datatype dl_result = DlSuccess string nat | DlFailure error

datatype status = Success | NotFound | Failed | Skipped

text \<open>The object \<open>downloadExtension\<close> returns; a field the object literal does not
  have is \<open>None\<close>.\<close>

record item_result =
  extensionId :: string
  status :: status
  strategy :: "string option"
  filepath :: "string option"
  size_bytes :: "nat option"
  err :: "error option"

subsection \<open>The crawler object and the world\<close>

record strategy_counts =
  n_success :: nat
  n_failed :: nat
  n_error :: nat

record run_stats =
  completed :: nat
  failed :: nat
  notFound :: nat
  skipped :: nat
  lastCheckpoint :: nat
  strategyStats :: "string \<rightharpoonup> strategy_counts"

record crawler =
  downloadDir :: jsval
  concurrency :: nat
  delayBetweenRequests :: nat
  retryAttempts :: nat
  downloadStrategies :: "string list"
  checkpointInterval :: nat

text \<open>What the program is seen doing, in order: the \<open>Processing\<close> line of
  \<open>downloadExtension\<close> with its attempt number, the \<open>Trying strategy\<close> line, each HTTP
  request, each browser session and blob navigation, each \<open>sleep\<close>, the \<open>Batch\<close> line of
  \<open>processBatch\<close> with the batch itself, and each checkpoint written.\<close>

datatype event =
    Processing string nat
  | Trying string string
  | HttpGet string
  | BrowserSession string string
  | BlobGet string
  | Sleep nat
  | Batch nat nat "string list"
  | CheckpointSaved nat

record world =
  stats :: run_stats
  files :: "string \<rightharpoonup> nat"
  trace :: "event list"

text \<open>The body of a \<open>200\<close> response piped into the write stream: the stream finishes
  with so many bytes in the file, or the transfer fails (a stream error, or the request's
  timeout) and leaves the file untouched (\<open>None\<close>) or with so many bytes.\<close>

datatype body = BodyFinish nat | BodyError error "nat option"

text \<open>The answer to \<open>protocol.get\<close>: the request fails before a response (an
  \<open>error\<close> event, the timeout), or a response arrives with its \<open>statusCode\<close>,
  \<open>statusMessage\<close>, \<open>headers.location\<close> and body.\<close>

datatype response = RequestError error | Response nat string "string option" body

text \<open>What \<open>waitForCRXViewerResult\<close> returns: \<open>{success, downloadUrl}\<close> or
  \<open>{success, error}\<close>.\<close>

record viewer_result =
  vr_success :: bool
  vr_downloadUrl :: "string option"
  vr_error :: "string option"

text \<open>
  The other parties. \<open>crxviewer_session\<close> stands for the page work of
  \<open>downloadViaCRXViewer\<close> up to the return of \<open>waitForCRXViewerResult\<close>,
  \<open>crxextractor_session\<close> and \<open>crxviewercom_session\<close> for the page work of the two
  other browser strategies up to the \<open>href\<close> read by \<open>$eval\<close> (\<open>None\<close> is
  \<open>undefined\<close>); \<open>Inl\<close> is an exception of puppeteer. \<open>blob_goto\<close> stands for
  \<open>downloadPage.goto\<close> and \<open>response.buffer()\<close>: \<open>response.ok()\<close>,
  \<open>response.status()\<close> and the length of the buffer.
\<close>

record env =
  http_get :: "world \<Rightarrow> string \<Rightarrow> response"
  crxviewer_session :: "world \<Rightarrow> string \<Rightarrow> error + viewer_result"
  blob_goto :: "world \<Rightarrow> string \<Rightarrow> error + (bool \<times> nat \<times> nat)"
  crxextractor_session :: "world \<Rightarrow> string \<Rightarrow> error + string option"
  crxviewercom_session :: "world \<Rightarrow> string \<Rightarrow> error + string option"

subsection \<open>Small operations\<close>

definition emit :: "event \<Rightarrow> world \<Rightarrow> world" where
  "emit e w = w\<lparr>trace := trace w @ [e]\<rparr>"

text \<open>\<open>sleep(ms)\<close>, lines 610-612.\<close>

definition sleep :: "nat \<Rightarrow> world \<Rightarrow> world" where
  "sleep ms w = emit (Sleep ms) w"

text \<open>\<open>path.join(this.downloadDir, file)\<close>: Node raises a \<open>TypeError\<close> when an
  argument is not a string. The normalisation of the joined path is not modelled.\<close>

definition path_join :: "jsval \<Rightarrow> string \<Rightarrow> error + string" where
  "path_join dir file =
     (case dir of
        JString d \<Rightarrow> Inr (d @ ''/'' @ file)
      | JNumber n \<Rightarrow> Inl (TypeError ''The path argument must be of type string''))"

text \<open>JavaScript's truthiness of a string that may be \<open>undefined\<close>.\<close>

fun truthy :: "string option \<Rightarrow> bool" where
  "truthy None = False"
| "truthy (Some s) = (s \<noteq> [])"

definition write_file :: "string \<Rightarrow> nat \<Rightarrow> world \<Rightarrow> world" where
  "write_file p n w = w\<lparr>files := (files w)(p \<mapsto> n)\<rparr>"

definition map_stats :: "(run_stats \<Rightarrow> run_stats) \<Rightarrow> world \<Rightarrow> world" where
  "map_stats f w = w\<lparr>stats := f (stats w)\<rparr>"

text \<open>\<open>updateStrategyStats(strategy, result)\<close>, lines 456-461; \<open>result\<close> is one of
  \<open>'success'\<close>, \<open>'failed'\<close>, \<open>'error'\<close>.\<close>

datatype strategy_outcome = OnSuccess | OnFailed | OnError

definition updateStrategyStats :: "string \<Rightarrow> strategy_outcome \<Rightarrow> world \<Rightarrow> world" where
  "updateStrategyStats s r w =
     (let m = strategyStats (stats w);
          k = (case m s of
                 None \<Rightarrow> \<lparr>n_success = 0, n_failed = 0, n_error = 0\<rparr>
               | Some k \<Rightarrow> k);
          k' = (case r of
                  OnSuccess \<Rightarrow> k\<lparr>n_success := n_success k + 1\<rparr>
                | OnFailed \<Rightarrow> k\<lparr>n_failed := n_failed k + 1\<rparr>
                | OnError \<Rightarrow> k\<lparr>n_error := n_error k + 1\<rparr>)
      in map_stats (\<lambda>st. st\<lparr>strategyStats := m(s \<mapsto> k')\<rparr>) w)"

subsection \<open>The constructor\<close>

text \<open>\<open>constructor(options = {})\<close>, lines 8-39: \<open>x || d\<close> takes the default for an
  absent option and for a falsy one (\<open>0\<close>, the empty string). The options that only
  puppeteer reads (\<open>headless\<close>, the timeouts, the user agent) are left out.\<close>

record options =
  opt_downloadDir :: "jsval option"
  opt_concurrency :: "nat option"
  opt_delayBetweenRequests :: "nat option"
  opt_retryAttempts :: "nat option"

definition or_default :: "nat option \<Rightarrow> nat \<Rightarrow> nat" where
  "or_default x d = (case x of None \<Rightarrow> d | Some n \<Rightarrow> if n = 0 then d else n)"

definition EnhancedCRXCrawler :: "options \<Rightarrow> crawler" where
  "EnhancedCRXCrawler opts =
     \<lparr> downloadDir =
         (case opt_downloadDir opts of
            None \<Rightarrow> JString ''./downloads/crx_extensions''
          | Some (JString s) \<Rightarrow> if s = [] then JString ''./downloads/crx_extensions'' else JString s
          | Some (JNumber n) \<Rightarrow> if n = 0 then JString ''./downloads/crx_extensions'' else JNumber n),
       concurrency = or_default (opt_concurrency opts) 2,
       delayBetweenRequests = or_default (opt_delayBetweenRequests opts) 6000,
       retryAttempts = or_default (opt_retryAttempts opts) 3,
       downloadStrategies = [''crxviewer'', ''directapi'', ''crxextractor'', ''crxviewer_com''],
       checkpointInterval = 100 \<rparr>"

definition initial_stats :: run_stats where
  "initial_stats =
     \<lparr> completed = 0, failed = 0, notFound = 0, skipped = 0, lastCheckpoint = 0,
       strategyStats = Map.empty \<rparr>"

subsection \<open>Direct download\<close>

text \<open>
  \<open>downloadFileDirectly(url, extensionId)\<close>, lines 371-422. The promise's executor
  computes the path (an exception there rejects the promise), sends the request, and in
  the response callback follows a redirect by calling itself, rejects any status other
  than \<open>200\<close>, and otherwise pipes the body into the file and checks its size. Nothing
  bounds the number of redirects: on an endless chain the promise never settles.
\<close>

partial_function (option) downloadFileDirectly ::
  "crawler \<Rightarrow> env \<Rightarrow> string \<Rightarrow> string \<Rightarrow> world \<Rightarrow> ((error + dl_result) \<times> world) option" where
  "downloadFileDirectly c env url extId w =
     (case path_join (downloadDir c) (extId @ ''.zip'') of
        Inl e \<Rightarrow> Some (Inl e, w)
      | Inr fp \<Rightarrow>
          (let w1 = emit (HttpGet url) w in
           case http_get env w1 url of
             RequestError e \<Rightarrow> Some (Inl e, w1)
           | Response statusCode statusMessage location content \<Rightarrow>
               if 300 \<le> statusCode \<and> statusCode < 400 \<and> truthy location then
                 downloadFileDirectly c env (the location) extId w1
               else if statusCode \<noteq> 200 then
                 Some (Inl (HttpStatus statusCode statusMessage), w1)
               else
                 (case content of
                    BodyError e partial \<Rightarrow>
                      Some (Inl e, (case partial of None \<Rightarrow> w1 | Some k \<Rightarrow> write_file fp k w1))
                  | BodyFinish n \<Rightarrow>
                      (let w2 = write_file fp n w1 in
                       if n < 1000 then Some (Inl DownloadedFileTooSmall, w2)
                       else Some (Inr (DlSuccess fp n), w2)))))"

text \<open>\<open>downloadFileFromBlob(blobUrl, extensionId)\<close>, lines 424-454; it returns
  \<open>{filepath, size}\<close>.\<close>

definition downloadFileFromBlob ::
  "crawler \<Rightarrow> env \<Rightarrow> string \<Rightarrow> string \<Rightarrow> world \<Rightarrow> (error + string \<times> nat) \<times> world" where
  "downloadFileFromBlob c env blobUrl extId w =
     (case path_join (downloadDir c) (extId @ ''.zip'') of
        Inl e \<Rightarrow> (Inl e, w)
      | Inr fp \<Rightarrow>
          (let w1 = emit (BlobGet blobUrl) w in
           case blob_goto env w1 blobUrl of
             Inl e \<Rightarrow> (Inl e, w1)
           | Inr (ok, code, len) \<Rightarrow>
               if \<not> ok then (Inl (BlobFetchFailed code), w1)
               else
                 (let w2 = write_file fp len w1 in
                  if len < 1000 then (Inl BlobTooSmall, w2)
                  else (Inr (fp, len), w2))))"

subsection \<open>The four strategies\<close>

text \<open>\<open>downloadViaCRXViewer(extensionId)\<close>, lines 172-211.\<close>

definition downloadViaCRXViewer ::
  "crawler \<Rightarrow> env \<Rightarrow> string \<Rightarrow> world \<Rightarrow> (error + dl_result) \<times> world" where
  "downloadViaCRXViewer c env extId w =
     (let w1 = emit (BrowserSession ''crxviewer'' extId) w in
      case crxviewer_session env w1 extId of
        Inl e \<Rightarrow> (Inl e, w1)
      | Inr result \<Rightarrow>
          if vr_success result \<and> truthy (vr_downloadUrl result) then
            (case downloadFileFromBlob c env (the (vr_downloadUrl result)) extId w1 of
               (Inl e, w2) \<Rightarrow> (Inl e, w2)
             | (Inr (fp, n), w2) \<Rightarrow> (Inr (DlSuccess fp n), w2))
          else
            (Inr (DlFailure (if truthy (vr_error result) then External (the (vr_error result))
                             else NoDownloadLinkFound)), w1))"

text \<open>The endpoints of \<open>downloadViaDirectAPI\<close>, lines 215-219.\<close>

definition apiUrls :: "string \<Rightarrow> string list" where
  "apiUrls extId =
     [''https://clients2.google.com/service/update2/crx?response=redirect&os=win&arch=x86-64&nacl_arch=x86-64&prod=chromiumcrx&prodchannel=stable&prodversion=120.0.0.0&acceptformat=crx2,crx3&x=id%3D'' @ extId @ ''%26uc'',
      ''https://clients2.google.com/service/update2/crx?response=redirect&prodversion=120.0.0.0&x=id='' @ extId @ ''&uc'',
      ''https://edge.microsoft.com/extensionwebstorebase/v1/crx?response=redirect&x=id='' @ extId @ ''&uc'']"

text \<open>The loop of \<open>downloadViaDirectAPI\<close>, lines 221-232: the first endpoint that
  resolves with success ends it; a rejection is caught and the next endpoint is tried.\<close>

fun tryApiUrls ::
  "crawler \<Rightarrow> env \<Rightarrow> string list \<Rightarrow> string \<Rightarrow> world \<Rightarrow> ((error + dl_result) \<times> world) option" where
  "tryApiUrls c env [] extId w = Some (Inr (DlFailure AllDirectApiEndpointsFailed), w)"
| "tryApiUrls c env (url # urls) extId w =
     (case downloadFileDirectly c env url extId w of
        None \<Rightarrow> None
      | Some (Inr (DlSuccess fp n), w1) \<Rightarrow> Some (Inr (DlSuccess fp n), w1)
      | Some (Inr (DlFailure e), w1) \<Rightarrow> tryApiUrls c env urls extId w1
      | Some (Inl e, w1) \<Rightarrow> tryApiUrls c env urls extId w1)"

definition downloadViaDirectAPI ::
  "crawler \<Rightarrow> env \<Rightarrow> string \<Rightarrow> world \<Rightarrow> ((error + dl_result) \<times> world) option" where
  "downloadViaDirectAPI c env extId w = tryApiUrls c env (apiUrls extId) extId w"

text \<open>\<open>downloadViaCRXExtractor(extensionId)\<close>, lines 235-275; a rejection of
  \<open>downloadFileDirectly\<close> passes through.\<close>

definition downloadViaCRXExtractor ::
  "crawler \<Rightarrow> env \<Rightarrow> string \<Rightarrow> world \<Rightarrow> ((error + dl_result) \<times> world) option" where
  "downloadViaCRXExtractor c env extId w =
     (let w1 = emit (BrowserSession ''crxextractor'' extId) w in
      case crxextractor_session env w1 extId of
        Inl e \<Rightarrow> Some (Inl e, w1)
      | Inr downloadLink \<Rightarrow>
          if truthy downloadLink then downloadFileDirectly c env (the downloadLink) extId w1
          else Some (Inr (DlFailure NoLinkOnCRXExtractor), w1))"

text \<open>\<open>downloadViaCRXViewerCom(extensionId)\<close>, lines 277-314.\<close>

definition downloadViaCRXViewerCom ::
  "crawler \<Rightarrow> env \<Rightarrow> string \<Rightarrow> world \<Rightarrow> ((error + dl_result) \<times> world) option" where
  "downloadViaCRXViewerCom c env extId w =
     (let w1 = emit (BrowserSession ''crxviewer_com'' extId) w in
      case crxviewercom_session env w1 extId of
        Inl e \<Rightarrow> Some (Inl e, w1)
      | Inr downloadLink \<Rightarrow>
          if truthy downloadLink then downloadFileDirectly c env (the downloadLink) extId w1
          else Some (Inr (DlFailure NoLinkOnCRXViewerCom), w1))"

text \<open>\<open>tryDownloadStrategy(strategy, extensionId)\<close>, lines 157-170.\<close>

definition tryDownloadStrategy ::
  "crawler \<Rightarrow> env \<Rightarrow> string \<Rightarrow> string \<Rightarrow> world \<Rightarrow> ((error + dl_result) \<times> world) option" where
  "tryDownloadStrategy c env s extId w =
     (if s = ''crxviewer'' then Some (downloadViaCRXViewer c env extId w)
      else if s = ''directapi'' then downloadViaDirectAPI c env extId w
      else if s = ''crxextractor'' then downloadViaCRXExtractor c env extId w
      else if s = ''crxviewer_com'' then downloadViaCRXViewerCom c env extId w
      else Some (Inl (UnknownStrategy s), w))"

subsection \<open>One identifier\<close>

text \<open>The existing-artifact check of \<open>downloadExtension\<close>, lines 81-90: the size of
  the file when \<open>fs.stat\<close> succeeds and the size is above 1000; the \<open>catch\<close> swallows a
  failing \<open>fs.stat\<close>.\<close>

definition existingArtifact :: "world \<Rightarrow> string \<Rightarrow> nat option" where
  "existingArtifact w expectedFile =
     (case files w expectedFile of
        None \<Rightarrow> None
      | Some n \<Rightarrow> if 1000 < n then Some n else None)"

text \<open>The strategy loop of \<open>downloadExtension\<close>, lines 93-123: \<open>Some r\<close> is the
  \<open>return\<close> of the success branch, \<open>None\<close> the end of the loop.\<close>

fun tryStrategies ::
  "crawler \<Rightarrow> env \<Rightarrow> string list \<Rightarrow> string \<Rightarrow> world \<Rightarrow> (item_result option \<times> world) option" where
  "tryStrategies c env [] extId w = Some (None, w)"
| "tryStrategies c env (s # rest) extId w =
     (case tryDownloadStrategy c env s extId (emit (Trying s extId) w) of
        None \<Rightarrow> None
      | Some (Inr (DlSuccess fp n), w1) \<Rightarrow>
          Some (Some \<lparr> extensionId = extId, status = Success, strategy = Some s,
                       filepath = Some fp, size_bytes = Some n, err = None \<rparr>,
                updateStrategyStats s OnSuccess
                  (map_stats (\<lambda>st. st\<lparr>completed := completed st + 1\<rparr>) w1))
      | Some (Inr (DlFailure e), w1) \<Rightarrow>
          tryStrategies c env rest extId (sleep 2000 (updateStrategyStats s OnFailed w1))
      | Some (Inl e, w1) \<Rightarrow>
          tryStrategies c env rest extId (sleep 2000 (updateStrategyStats s OnError w1)))"

text \<open>The \<open>try\<close> block of \<open>downloadExtension\<close>, lines 78-134; \<open>Inl\<close> is an exception
  that reaches the outer \<open>catch\<close>.\<close>

definition attemptBody ::
  "crawler \<Rightarrow> env \<Rightarrow> string \<Rightarrow> world \<Rightarrow> ((error + item_result) \<times> world) option" where
  "attemptBody c env extId w =
     (case path_join (downloadDir c) (extId @ ''.zip'') of
        Inl e \<Rightarrow> Some (Inl e, w)
      | Inr expectedFile \<Rightarrow>
          (case existingArtifact w expectedFile of
             Some n \<Rightarrow>
               Some (Inr \<lparr> extensionId = extId, status = Skipped, strategy = None,
                           filepath = Some expectedFile, size_bytes = Some n, err = None \<rparr>,
                     map_stats (\<lambda>st. st\<lparr>skipped := skipped st + 1\<rparr>) w)
           | None \<Rightarrow>
               (case tryStrategies c env (downloadStrategies c) extId w of
                  None \<Rightarrow> None
                | Some (Some r, w1) \<Rightarrow> Some (Inr r, w1)
                | Some (None, w1) \<Rightarrow>
                    Some (Inr \<lparr> extensionId = extId, status = NotFound, strategy = None,
                                filepath = None, size_bytes = None,
                                err = Some AllStrategiesFailed \<rparr>,
                          map_stats (\<lambda>st. st\<lparr>notFound := notFound st + 1\<rparr>) w1))))"

text \<open>The backoff of the outer \<open>catch\<close>, line 141:
  \<open>Math.min(5000 * attempt, 15000)\<close>.\<close>

definition retryDelay :: "nat \<Rightarrow> nat" where
  "retryDelay attempt = min (5000 * attempt) 15000"

text \<open>\<open>downloadExtension(extensionId, attempt = 1)\<close>, lines 74-155.\<close>

function downloadExtension ::
  "crawler \<Rightarrow> env \<Rightarrow> string \<Rightarrow> nat \<Rightarrow> world \<Rightarrow> (item_result \<times> world) option" where
  "downloadExtension c env extId attempt w =
     (case attemptBody c env extId (emit (Processing extId attempt) w) of
        None \<Rightarrow> None
      | Some (Inr r, w1) \<Rightarrow> Some (r, w1)
      | Some (Inl e, w1) \<Rightarrow>
          if attempt < retryAttempts c then
            downloadExtension c env extId (attempt + 1)
              (sleep (retryDelay attempt) w1)
          else
            Some (\<lparr> extensionId = extId, status = Failed, strategy = None,
                    filepath = None, size_bytes = None, err = Some e \<rparr>,
                  map_stats (\<lambda>st. st\<lparr>failed := failed st + 1\<rparr>) w1))"
  by pat_completeness auto
termination
  by (relation "measure (\<lambda>(c, env, extId, attempt, w). retryAttempts c - attempt)") auto

declare downloadExtension.simps [simp del]

subsection \<open>Batches and checkpoints\<close>

text \<open>\<open>saveCheckpoint(results)\<close>, lines 633-644.\<close>

definition saveCheckpoint :: "item_result list \<Rightarrow> world \<Rightarrow> world" where
  "saveCheckpoint results w = emit (CheckpointSaved (length results)) w"

text \<open>The checkpoint step of \<open>processBatch\<close>, lines 566-569.\<close>

definition checkpointIfDue :: "crawler \<Rightarrow> item_result list \<Rightarrow> world \<Rightarrow> world" where
  "checkpointIfDue c results w =
     (if int (checkpointInterval c) \<le> int (length results) - int (lastCheckpoint (stats w)) then
        map_stats (\<lambda>st. st\<lparr>lastCheckpoint := length results\<rparr>) (saveCheckpoint results w)
      else w)"

text \<open>The tasks of one batch, lines 556-563: the task at \<open>index\<close> sleeps
  \<open>index * 1000\<close> and then downloads; \<open>Promise.all\<close> returns the results in the order
  of the batch.\<close>

fun runBatch ::
  "crawler \<Rightarrow> env \<Rightarrow> string list \<Rightarrow> nat \<Rightarrow> world \<Rightarrow> (item_result list \<times> world) option" where
  "runBatch c env [] index w = Some ([], w)"
| "runBatch c env (extId # rest) index w =
     (case downloadExtension c env extId 1 (sleep (index * 1000) w) of
        None \<Rightarrow> None
      | Some (r, w1) \<Rightarrow>
          (case runBatch c env rest (index + 1) w1 of
             None \<Rightarrow> None
           | Some (rs, w2) \<Rightarrow> Some (r # rs, w2)))"

text \<open>The loop of \<open>processBatch\<close>, lines 549-577, from index \<open>i\<close>. With a concurrency
  of zero the index never advances and the loop does not end.\<close>

function processBatchFrom ::
  "crawler \<Rightarrow> env \<Rightarrow> string list \<Rightarrow> nat \<Rightarrow> nat \<Rightarrow> item_result list \<Rightarrow> world
     \<Rightarrow> (item_result list \<times> world) option" where
  "processBatchFrom c env extensionIds i batchNumber results w =
     (if i < length extensionIds then
        (if concurrency c = 0 then None
         else
           (let batch = take (concurrency c) (drop i extensionIds);
                totalBatches = (length extensionIds + concurrency c - 1) div concurrency c
            in case runBatch c env batch 0 (emit (Batch batchNumber totalBatches batch) w) of
                 None \<Rightarrow> None
               | Some (batchResults, w1) \<Rightarrow>
                   (let w2 = checkpointIfDue c (results @ batchResults) w1;
                        w3 = (if i + concurrency c < length extensionIds
                              then sleep (delayBetweenRequests c) w2 else w2)
                    in processBatchFrom c env extensionIds (i + concurrency c)
                         (batchNumber + 1) (results @ batchResults) w3)))
      else Some (results, w))"
  by pat_completeness auto
termination
  by (relation "measure (\<lambda>(c, env, ids, i, b, rs, w). length ids - i)") auto

declare processBatchFrom.simps [simp del]

text \<open>\<open>processBatch(extensionIds)\<close>, lines 545-580.\<close>

definition processBatch ::
  "crawler \<Rightarrow> env \<Rightarrow> string list \<Rightarrow> world \<Rightarrow> (item_result list \<times> world) option" where
  "processBatch c env extensionIds w = processBatchFrom c env extensionIds 0 1 [] w"

section \<open>Observations, specifications and example inputs\<close>

subsection \<open>Classes of events\<close>

fun is_processing :: "event \<Rightarrow> bool" where
  "is_processing (Processing _ _) = True"
| "is_processing _ = False"

fun is_trying :: "event \<Rightarrow> bool" where
  "is_trying (Trying _ _) = True"
| "is_trying _ = False"

text \<open>A network call: an HTTP request, or a page or blob navigation of the browser.\<close>

fun is_network :: "event \<Rightarrow> bool" where
  "is_network (HttpGet _) = True"
| "is_network (BrowserSession _ _) = True"
| "is_network (BlobGet _) = True"
| "is_network _ = False"

fun is_sleep :: "event \<Rightarrow> bool" where
  "is_sleep (Sleep _) = True"
| "is_sleep _ = False"

fun is_checkpoint :: "event \<Rightarrow> bool" where
  "is_checkpoint (CheckpointSaved _) = True"
| "is_checkpoint _ = False"

fun is_batch :: "event \<Rightarrow> bool" where
  "is_batch (Batch _ _ _) = True"
| "is_batch _ = False"

text \<open>The batches announced in a trace, in order.\<close>

fun batches_of :: "event list \<Rightarrow> string list list" where
  "batches_of [] = []"
| "batches_of (Batch k t b # es) = b # batches_of es"
| "batches_of (e # es) = batches_of es"

definition chain_event :: "event \<Rightarrow> bool" where
  "chain_event e = (is_trying e \<or> is_network e \<or> is_sleep e)"

definition item_event :: "event \<Rightarrow> bool" where
  "item_event e = (\<not> is_batch e \<and> \<not> is_checkpoint e)"


subsection \<open>Counters\<close>

text \<open>The counter that belongs to a status, and the sum \<open>processed\<close> of
  \<open>printProgress\<close>, line 625.\<close>

fun status_counter :: "run_stats \<Rightarrow> status \<Rightarrow> nat" where
  "status_counter st Success = completed st"
| "status_counter st NotFound = notFound st"
| "status_counter st Failed = failed st"
| "status_counter st Skipped = skipped st"

definition processed :: "run_stats \<Rightarrow> nat" where
  "processed st = completed st + failed st + notFound st + skipped st"

subsection \<open>The batches and checkpoints of the specification\<close>

text \<open>The specification's partition of the input "into contiguous batches of fixed
  size C": the first \<open>n\<close> elements, then the batches of the rest.\<close>

function contiguous_batches :: "nat \<Rightarrow> 'a list \<Rightarrow> 'a list list" where
  "contiguous_batches n xs =
     (if xs = [] \<or> n = 0 then [] else take n xs # contiguous_batches n (drop n xs))"
  by pat_completeness auto
termination
  by (relation "measure (\<lambda>(n, xs). length xs)") auto

declare contiguous_batches.simps [simp del]

text \<open>The sizes at which checkpoints fall due for \<open>n\<close> identifiers in batches of
  \<open>C\<close> with interval \<open>K\<close>, from index \<open>i\<close> with \<open>len\<close> results so far and the
  marker at \<open>mark\<close>.\<close>

function checkpoint_sizes :: "nat \<Rightarrow> nat \<Rightarrow> nat \<Rightarrow> nat \<Rightarrow> nat \<Rightarrow> nat \<Rightarrow> nat list" where
  "checkpoint_sizes C K n i len mark =
     (if i < n \<and> 0 < C then
        (let len' = len + min C (n - i) in
         if K + mark \<le> len' then len' # checkpoint_sizes C K n (i + C) len' len'
         else checkpoint_sizes C K n (i + C) len' mark)
      else [])"
  by pat_completeness auto
termination
  by (relation "measure (\<lambda>(C, K, n, i, len, mark). n - i)") auto

declare checkpoint_sizes.simps [simp del]

subsection \<open>Postconditions\<close>

text \<open>The trace of \<open>w'\<close> is the trace of \<open>w\<close> followed by events of the class \<open>P\<close>.\<close>

definition extends_by :: "(event \<Rightarrow> bool) \<Rightarrow> world \<Rightarrow> world \<Rightarrow> bool" where
  "extends_by P w w' = (\<exists>evs. trace w' = trace w @ evs \<and> list_all P evs)"

text \<open>A strategy leaves the statistics alone, makes network calls only, and resolves
  with success only when the file of the identifier has the size it reports, at least
  1000.\<close>

definition strategy_post ::
  "crawler \<Rightarrow> string \<Rightarrow> world \<Rightarrow> (error + dl_result) \<times> world \<Rightarrow> bool" where
  "strategy_post c extId w y =
     (stats (snd y) = stats w \<and> extends_by is_network w (snd y) \<and>
      (\<forall>fp n. fst y = Inr (DlSuccess fp n) \<longrightarrow>
         1000 \<le> n \<and> files (snd y) fp = Some n \<and>
         path_join (downloadDir c) (extId @ ''.zip'') = Inr fp))"

definition artifact_at :: "crawler \<Rightarrow> string \<Rightarrow> world \<Rightarrow> item_result \<Rightarrow> bool" where
  "artifact_at c extId w r =
     (\<exists>fp n. filepath r = Some fp \<and> size_bytes r = Some n \<and> 1000 \<le> n \<and>
             files w fp = Some n \<and> path_join (downloadDir c) (extId @ ''.zip'') = Inr fp)"

definition usable_artifact :: "crawler \<Rightarrow> world \<Rightarrow> string \<Rightarrow> bool" where
  "usable_artifact c w extId =
     (\<exists>fp n. path_join (downloadDir c) (extId @ ''.zip'') = Inr fp \<and>
             files w fp = Some n \<and> 1000 < n)"

definition chain_post ::
  "crawler \<Rightarrow> string \<Rightarrow> world \<Rightarrow> item_result option \<times> world \<Rightarrow> bool" where
  "chain_post c extId w y =
     (extends_by chain_event w (snd y) \<and>
      lastCheckpoint (stats (snd y)) = lastCheckpoint (stats w) \<and>
      failed (stats (snd y)) = failed (stats w) \<and>
      notFound (stats (snd y)) = notFound (stats w) \<and>
      skipped (stats (snd y)) = skipped (stats w) \<and>
      (case fst y of
         None \<Rightarrow> completed (stats (snd y)) = completed (stats w)
       | Some r \<Rightarrow> completed (stats (snd y)) = completed (stats w) + 1 \<and>
                   status r = Success \<and> extensionId r = extId \<and> artifact_at c extId (snd y) r))"

definition item_post :: "crawler \<Rightarrow> string \<Rightarrow> world \<Rightarrow> item_result \<times> world \<Rightarrow> bool" where
  "item_post c extId w y =
     (extends_by item_event w (snd y) \<and>
      lastCheckpoint (stats (snd y)) = lastCheckpoint (stats w) \<and>
      extensionId (fst y) = extId \<and>
      (\<forall>s. status_counter (stats (snd y)) s =
            status_counter (stats w) s + (if s = status (fst y) then 1 else 0)) \<and>
      (status (fst y) = Success \<longrightarrow> artifact_at c extId (snd y) (fst y)) \<and>
      (status (fst y) = Skipped \<longrightarrow>
         (\<exists>fp n. path_join (downloadDir c) (extId @ ''.zip'') = Inr fp \<and>
                 files w fp = Some n \<and> 1000 < n)))"

definition batch_post :: "string list \<Rightarrow> world \<Rightarrow> item_result list \<times> world \<Rightarrow> bool" where
  "batch_post batch w y =
     (map extensionId (fst y) = batch \<and> extends_by item_event w (snd y) \<and>
      lastCheckpoint (stats (snd y)) = lastCheckpoint (stats w) \<and>
      processed (stats (snd y)) = processed (stats w) + length batch)"

definition run_post ::
  "crawler \<Rightarrow> string list \<Rightarrow> nat \<Rightarrow> item_result list \<Rightarrow> world \<Rightarrow> item_result list \<times> world \<Rightarrow> bool" where
  "run_post c ids i results w y =
     (map extensionId (fst y) = map extensionId results @ drop i ids \<and>
      processed (stats (snd y)) = processed (stats w) + (length ids - i) \<and>
      (\<exists>evs. trace (snd y) = trace w @ evs \<and>
         batches_of evs = contiguous_batches (concurrency c) (drop i ids) \<and>
         filter is_checkpoint evs =
           map CheckpointSaved
             (checkpoint_sizes (concurrency c) (checkpointInterval c) (length ids) i
                (length results) (lastCheckpoint (stats w)))))"

definition not_found_result :: "string \<Rightarrow> item_result" where
  "not_found_result extId =
     \<lparr> extensionId = extId, status = NotFound, strategy = None, filepath = None,
       size_bytes = None, err = Some AllStrategiesFailed \<rparr>"

subsection \<open>Example inputs\<close>

text \<open>Crawlers: the one \<open>main\<close> builds; one with the direct API as its only
  strategy, as the direct-API variant of the crawler has it; one with the checkpoint
  interval set to 4; one whose download directory is the number 42.\<close>

definition default_options :: options where
  "default_options =
     \<lparr> opt_downloadDir = None, opt_concurrency = None, opt_delayBetweenRequests = None,
       opt_retryAttempts = None \<rparr>"

definition standard :: crawler where
  "standard = EnhancedCRXCrawler default_options"

definition direct_only :: crawler where
  "direct_only = (EnhancedCRXCrawler default_options)\<lparr>downloadStrategies := [''directapi'']\<rparr>"

definition scenario3 :: crawler where
  "scenario3 = standard\<lparr>checkpointInterval := 4\<rparr>"

definition misconfigured :: crawler where
  "misconfigured = EnhancedCRXCrawler (default_options\<lparr>opt_downloadDir := Some (JNumber 42)\<rparr>)"

text \<open>Worlds: a fresh crawler over an empty directory, and one over a directory that
  holds an artifact of 50000 bytes for each of the given identifiers.\<close>

definition empty_world :: world where
  "empty_world = \<lparr> stats = initial_stats, files = Map.empty, trace = [] \<rparr>"

definition seeded_world :: "string list \<Rightarrow> world" where
  "seeded_world ids =
     \<lparr> stats = initial_stats,
       files = map_of (map (\<lambda>extId. (''./downloads/crx_extensions/'' @ extId @ ''.zip'', 50000)) ids),
       trace = [] \<rparr>"

definition five_ids :: "string list" where
  "five_ids =
     [''aaaaaaaaaaaaaaaaaaaaaaaaaaaaaaaa'', ''bbbbbbbbbbbbbbbbbbbbbbbbbbbbbbbb'',
      ''cccccccccccccccccccccccccccccccc'', ''dddddddddddddddddddddddddddddddd'',
      ''eeeeeeeeeeeeeeeeeeeeeeeeeeeeeeee'']"

text \<open>Other parties: one that answers every request with the given status, message,
  \<open>Location\<close> header and body size, and has no working browser; one that serves
  \<open>n\<close> bytes with status 200; one that answers 404 everywhere; one that redirects a
  first address to a second, which serves 50000 bytes.\<close>

definition env_answering :: "nat \<Rightarrow> string \<Rightarrow> string option \<Rightarrow> nat \<Rightarrow> env" where
  "env_answering code msg loc n =
     \<lparr> http_get = (\<lambda>w url. Response code msg loc (BodyFinish n)),
       crxviewer_session = (\<lambda>w extId. Inl (External ''Navigation timeout'')),
       blob_goto = (\<lambda>w url. Inl (External ''Navigation timeout'')),
       crxextractor_session = (\<lambda>w extId. Inl (External ''Navigation timeout'')),
       crxviewercom_session = (\<lambda>w extId. Inl (External ''Navigation timeout'')) \<rparr>"

definition env_serving :: "nat \<Rightarrow> env" where
  "env_serving n = env_answering 200 ''OK'' None n"

definition env_unreachable :: env where
  "env_unreachable = env_answering 404 ''Not Found'' None 0"

definition env_redirecting :: env where
  "env_redirecting =
     (env_answering 200 ''OK'' None 50000)
       \<lparr> http_get := (\<lambda>w url.
           if url = ''https://example.org/a.crx''
           then Response 302 ''Found'' (Some ''https://cdn.example.org/a.crx'') (BodyFinish 0)
           else Response 200 ''OK'' None (BodyFinish 50000)) \<rparr>"

section \<open>Frame lemmas\<close>

subsection \<open>Traces and the small operations\<close>

lemma extends_by_refl [simp]: "extends_by P w w"
  by (simp add: extends_by_def)

lemma extends_by_trans: "extends_by P w w1 \<Longrightarrow> extends_by P w1 w2 \<Longrightarrow> extends_by P w w2"
  by (auto simp: extends_by_def)

lemma extends_by_mono: "extends_by P w w' \<Longrightarrow> (\<And>e. P e \<Longrightarrow> Q e) \<Longrightarrow> extends_by Q w w'"
  by (auto simp: extends_by_def list_all_iff)

lemma emit_simps [simp]:
  "trace (emit e w) = trace w @ [e]" "stats (emit e w) = stats w" "files (emit e w) = files w"
  by (simp_all add: emit_def)

lemma sleep_simps [simp]:
  "trace (sleep ms w) = trace w @ [Sleep ms]" "stats (sleep ms w) = stats w"
  "files (sleep ms w) = files w"
  by (simp_all add: sleep_def)

lemma write_file_simps [simp]:
  "trace (write_file p n w) = trace w" "stats (write_file p n w) = stats w"
  "files (write_file p n w) = (files w)(p \<mapsto> n)"
  by (simp_all add: write_file_def)

lemma map_stats_simps [simp]:
  "trace (map_stats f w) = trace w" "stats (map_stats f w) = f (stats w)"
  "files (map_stats f w) = files w"
  by (simp_all add: map_stats_def)

lemma updateStrategyStats_simps [simp]:
  "trace (updateStrategyStats s r w) = trace w"
  "files (updateStrategyStats s r w) = files w"
  "completed (stats (updateStrategyStats s r w)) = completed (stats w)"
  "failed (stats (updateStrategyStats s r w)) = failed (stats w)"
  "notFound (stats (updateStrategyStats s r w)) = notFound (stats w)"
  "skipped (stats (updateStrategyStats s r w)) = skipped (stats w)"
  "lastCheckpoint (stats (updateStrategyStats s r w)) = lastCheckpoint (stats w)"
  by (simp_all add: updateStrategyStats_def Let_def)

lemma extends_by_emit: "P e \<Longrightarrow> extends_by P w (emit e w)"
  by (simp add: extends_by_def)

lemma extends_by_same_trace: "trace w' = trace w \<Longrightarrow> extends_by P w w'"
  by (simp add: extends_by_def)

lemma extends_by_step: "trace w1 = trace w @ [e] \<Longrightarrow> P e \<Longrightarrow> extends_by P w1 w2 \<Longrightarrow> extends_by P w w2"
  by (auto simp: extends_by_def)

lemma is_network_chain [simp]: "is_network e \<Longrightarrow> chain_event e"
  by (simp add: chain_event_def)

lemma chain_event_item [simp]: "chain_event e \<Longrightarrow> item_event e"
  by (cases e) (simp_all add: chain_event_def item_event_def)

lemma chain_event_not_processing: "chain_event e \<Longrightarrow> \<not> is_processing e"
  by (cases e) (simp_all add: chain_event_def)

lemma retryDelay_mono: "a \<le> b \<Longrightarrow> retryDelay a \<le> retryDelay b"
  by (simp add: retryDelay_def min_def)

lemma retryDelay_cap: "retryDelay a \<le> 15000"
  by (simp add: retryDelay_def)

subsection \<open>What a strategy may do\<close>

lemma dfd_post:
  assumes "downloadFileDirectly c env url extId w = Some y"
  shows "strategy_post c extId w y"
proof (rule downloadFileDirectly.raw_induct
         [where P = "\<lambda>c env url extId w y. strategy_post c extId w y", OF _ assms], goal_cases)
  case (1 dfd c env url extId w y)
  show ?case
  proof (cases "path_join (downloadDir c) (extId @ ''.zip'')")
    case (Inl e)
    with 1(2) show ?thesis by (auto simp: strategy_post_def)
  next
    case (Inr fp)
    let ?w1 = "emit (HttpGet url) w"
    show ?thesis
    proof (cases "http_get env ?w1 url")
      case (RequestError e)
      with 1(2) Inr show ?thesis
        by (auto simp: strategy_post_def Let_def extends_by_emit)
    next
      case (Response code msg loc content)
      show ?thesis
      proof (cases "300 \<le> code \<and> code < 400 \<and> truthy loc")
        case True
        with 1(2) Inr Response have "dfd c env (the loc) extId ?w1 = Some y"
          by (simp add: Let_def)
        then have "strategy_post c extId ?w1 y" by (rule 1(1))
        then show ?thesis
          by (auto simp: strategy_post_def intro: extends_by_step [of ?w1 w "HttpGet url"])
      next
        case False
        with 1(2) Inr Response show ?thesis
          by (cases content)
             (auto simp: strategy_post_def Let_def extends_by_def split: if_splits option.splits)
      qed
    qed
  qed
qed

lemma strategy_post_after_emit:
  "is_network e \<Longrightarrow> strategy_post c extId (emit e w) y \<Longrightarrow> strategy_post c extId w y"
  by (auto simp: strategy_post_def intro: extends_by_step [of "emit e w" w e])

lemma strategy_post_here:
  "(\<And>fp n. r \<noteq> Inr (DlSuccess fp n)) \<Longrightarrow> strategy_post c extId w (r, w)"
  by (simp add: strategy_post_def)

lemma blob_post:
  "downloadFileFromBlob c env u extId w = (r, w') \<Longrightarrow>
   stats w' = stats w \<and> extends_by is_network w w' \<and>
   (\<forall>fp n. r = Inr (fp, n) \<longrightarrow> 1000 \<le> n \<and> files w' fp = Some n \<and>
      path_join (downloadDir c) (extId @ ''.zip'') = Inr fp)"
  by (auto simp: downloadFileFromBlob_def Let_def extends_by_def
           split: sum.splits if_splits prod.splits)

lemma crxviewer_post:
  "strategy_post c extId w (downloadViaCRXViewer c env extId w)"
proof -
  let ?w1 = "emit (BrowserSession ''crxviewer'' extId) w"
  have "strategy_post c extId ?w1 (downloadViaCRXViewer c env extId w)"
  proof (cases "crxviewer_session env ?w1 extId")
    case (Inl e)
    then show ?thesis by (simp add: downloadViaCRXViewer_def Let_def strategy_post_def)
  next
    case (Inr res)
    show ?thesis
    proof (cases "vr_success res \<and> truthy (vr_downloadUrl res)")
      case False
      with Inr show ?thesis
        by (auto simp: downloadViaCRXViewer_def Let_def strategy_post_def)
    next
      case True
      obtain r w2 where b: "downloadFileFromBlob c env (the (vr_downloadUrl res)) extId ?w1 = (r, w2)"
        by (cases "downloadFileFromBlob c env (the (vr_downloadUrl res)) extId ?w1")
      from blob_post [OF b] True Inr b show ?thesis
        by (cases r) (auto simp: downloadViaCRXViewer_def Let_def strategy_post_def)
    qed
  qed
  then show ?thesis by (rule strategy_post_after_emit [rotated]) simp
qed

lemma strategy_post_trans:
  "stats w1 = stats w \<Longrightarrow> extends_by is_network w w1 \<Longrightarrow> strategy_post c extId w1 y \<Longrightarrow>
   strategy_post c extId w y"
  by (auto simp: strategy_post_def intro: extends_by_trans)

lemma tryApiUrls_post:
  "tryApiUrls c env urls extId w = Some y \<Longrightarrow> strategy_post c extId w y"
proof (induction urls arbitrary: w)
  case Nil
  then show ?case by (auto simp: strategy_post_def)
next
  case (Cons url urls)
  from Cons.prems obtain r w1 where d: "downloadFileDirectly c env url extId w = Some (r, w1)"
    by (cases "downloadFileDirectly c env url extId w") auto
  from dfd_post [OF d] have p: "strategy_post c extId w (r, w1)" .
  show ?case
  proof (cases "\<exists>fp n. r = Inr (DlSuccess fp n)")
    case True
    with Cons.prems d p show ?thesis by auto
  next
    case False
    with Cons.prems d have "tryApiUrls c env urls extId w1 = Some y"
      by (auto split: sum.splits dl_result.splits)
    then have "strategy_post c extId w1 y" by (rule Cons.IH)
    with p show ?thesis
      by (auto simp: strategy_post_def intro: extends_by_trans)
  qed
qed

lemma directapi_post:
  "downloadViaDirectAPI c env extId w = Some y \<Longrightarrow> strategy_post c extId w y"
  by (simp add: downloadViaDirectAPI_def tryApiUrls_post)

lemma crxextractor_post:
  "downloadViaCRXExtractor c env extId w = Some y \<Longrightarrow> strategy_post c extId w y"
  by (rule strategy_post_after_emit [of "BrowserSession ''crxextractor'' extId"])
     (auto simp: downloadViaCRXExtractor_def Let_def strategy_post_here dfd_post
           split: sum.splits if_splits)

lemma crxviewercom_post:
  "downloadViaCRXViewerCom c env extId w = Some y \<Longrightarrow> strategy_post c extId w y"
  by (rule strategy_post_after_emit [of "BrowserSession ''crxviewer_com'' extId"])
     (auto simp: downloadViaCRXViewerCom_def Let_def strategy_post_here dfd_post
           split: sum.splits if_splits)

lemma tryDownloadStrategy_post:
  "tryDownloadStrategy c env s extId w = Some y \<Longrightarrow> strategy_post c extId w y"
  by (auto simp: tryDownloadStrategy_def crxviewer_post directapi_post crxextractor_post
                 crxviewercom_post strategy_post_here split: if_splits)

lemma dfd_too_small:
  assumes "path_join (downloadDir c) (extId @ ''.zip'') = Inr fp"
    and "http_get env (emit (HttpGet url) w) url = Response 200 msg loc (BodyFinish n)"
    and "n < 1000"
  shows "downloadFileDirectly c env url extId w =
           Some (Inl DownloadedFileTooSmall, write_file fp n (emit (HttpGet url) w))"
  using assms by (subst downloadFileDirectly.simps) (simp add: Let_def)

subsection \<open>What the processing of one identifier may do\<close>

lemma tryStrategies_post:
  "tryStrategies c env ss extId w = Some y \<Longrightarrow> chain_post c extId w y"
proof (induction ss arbitrary: w)
  case Nil
  then show ?case by (auto simp: chain_post_def)
next
  case (Cons s rest)
  let ?w0 = "emit (Trying s extId) w"
  from Cons.prems obtain r w1 where t: "tryDownloadStrategy c env s extId ?w0 = Some (r, w1)"
    by (cases "tryDownloadStrategy c env s extId ?w0") auto
  from tryDownloadStrategy_post [OF t]
  have p: "strategy_post c extId ?w0 (r, w1)" .
  then have st: "stats w1 = stats w" and ex0: "extends_by is_network ?w0 w1"
    by (simp_all add: strategy_post_def)
  from ex0 have ex: "extends_by chain_event w w1"
    by (auto simp: extends_by_def chain_event_def list_all_iff)
  show ?case
  proof (cases "\<exists>fp n. r = Inr (DlSuccess fp n)")
    case True
    then obtain fp n where r: "r = Inr (DlSuccess fp n)" by blast
    with p have "1000 \<le> n" "files w1 fp = Some n"
      "path_join (downloadDir c) (extId @ ''.zip'') = Inr fp"
      by (simp_all add: strategy_post_def)
    with Cons.prems t r st ex show ?thesis
      by (auto simp: chain_post_def artifact_at_def extends_by_def)
  next
    case False
    define w2 where "w2 = sleep 2000 (updateStrategyStats s (case r of Inl _ \<Rightarrow> OnError | Inr _ \<Rightarrow> OnFailed) w1)"
    from False Cons.prems t have "tryStrategies c env rest extId w2 = Some y"
      by (auto simp: w2_def split: sum.splits dl_result.splits)
    then have ih: "chain_post c extId w2 y" by (rule Cons.IH)
    have "extends_by chain_event w1 w2"
      by (simp add: w2_def extends_by_def chain_event_def)
    with ex have "extends_by chain_event w w2" by (rule extends_by_trans)
    moreover have "lastCheckpoint (stats w2) = lastCheckpoint (stats w)"
      "failed (stats w2) = failed (stats w)" "notFound (stats w2) = notFound (stats w)"
      "skipped (stats w2) = skipped (stats w)" "completed (stats w2) = completed (stats w)"
      by (simp_all add: w2_def st)
    ultimately show ?thesis using ih
      by (auto simp: chain_post_def intro: extends_by_trans split: option.splits)
  qed
qed

lemma attemptBody_raises:
  "attemptBody c env extId w = Some (Inl e, w') \<Longrightarrow>
   w' = w \<and> path_join (downloadDir c) (extId @ ''.zip'') = Inl e"
  by (auto simp: attemptBody_def split: sum.splits option.splits)

lemma attemptBody_returns:
  assumes "attemptBody c env extId w = Some (Inr r, w')"
  shows "item_post c extId w (r, w')"
proof -
  from assms obtain fp where pj: "path_join (downloadDir c) (extId @ ''.zip'') = Inr fp"
    by (auto simp: attemptBody_def split: sum.splits)
  show ?thesis
  proof (cases "existingArtifact w fp")
    case (Some n)
    then have "files w fp = Some n" "1000 < n"
      by (auto simp: existingArtifact_def split: option.splits if_splits)
    with assms pj Some show ?thesis
      by (auto simp: attemptBody_def item_post_def extends_by_def intro: status.exhaust)
         (case_tac s; simp)+
  next
    case None
    with assms pj obtain ro w1 where
      t: "tryStrategies c env (downloadStrategies c) extId w = Some (ro, w1)"
      by (cases "tryStrategies c env (downloadStrategies c) extId w") (auto simp: attemptBody_def)
    from tryStrategies_post [OF t] have cp: "chain_post c extId w (ro, w1)" .
    then have ex: "extends_by item_event w w1"
      by (auto simp: chain_post_def intro: extends_by_mono)
    show ?thesis
    proof (cases ro)
      case (Some r')
      with assms pj None t have "r = r'" "w' = w1" by (auto simp: attemptBody_def)
      with cp Some ex show ?thesis
        apply (simp add: item_post_def chain_post_def)
        apply (intro allI)
        apply (case_tac s; simp)
        done
    next
      case None': None
      with assms pj None t have
        "r = \<lparr> extensionId = extId, status = NotFound, strategy = None,
                filepath = None, size_bytes = None, err = Some AllStrategiesFailed \<rparr>"
        "w' = map_stats (\<lambda>st. st\<lparr>notFound := notFound st + 1\<rparr>) w1"
        by (auto simp: attemptBody_def)
      with cp None' ex show ?thesis
        apply (simp add: item_post_def chain_post_def)
        apply (rule conjI)
         apply (simp add: extends_by_def)
        apply (intro allI)
        apply (case_tac s; simp)
        done
    qed
  qed
qed

lemma item_post_after:
  assumes "trace w1 = trace w @ evs" "list_all item_event evs" "stats w1 = stats w"
    "files w1 = files w" "item_post c extId w1 y"
  shows "item_post c extId w y"
proof -
  from assms(1,2) have "extends_by item_event w w1" by (auto simp: extends_by_def)
  with assms(3-) show ?thesis
    by (auto simp: item_post_def intro: extends_by_trans)
qed

lemma downloadExtension_post:
  "downloadExtension c env extId attempt w = Some y \<Longrightarrow> item_post c extId w y"
proof (induction c env extId attempt w rule: downloadExtension.induct)
  case (1 c env extId attempt w)
  let ?w0 = "emit (Processing extId attempt) w"
  from "1.prems" obtain b w1 where a: "attemptBody c env extId ?w0 = Some (b, w1)"
    by (cases "attemptBody c env extId ?w0") (auto simp: downloadExtension.simps [of c env extId attempt w])
  have "item_post c extId ?w0 y"
  proof (cases b)
    case (Inr r)
    with a "1.prems" have "y = (r, w1)"
      by (simp add: downloadExtension.simps [of c env extId attempt w])
    with a Inr show ?thesis by (simp add: attemptBody_returns)
  next
    case (Inl e)
    with a have w1: "w1 = ?w0" by (simp add: attemptBody_raises)
    show ?thesis
    proof (cases "attempt < retryAttempts c")
      case True
      let ?w2 = "sleep (retryDelay attempt) w1"
      from True a Inl "1.prems" have "downloadExtension c env extId (attempt + 1) ?w2 = Some y"
        by (simp add: downloadExtension.simps [of c env extId attempt w])
      with a Inl True have "item_post c extId ?w2 y"
        by (intro "1.IH") auto
      then show ?thesis
        by (rule item_post_after [rotated -1]) (simp add: w1, simp_all add: w1 item_event_def)
    next
      case False
      with a Inl "1.prems" have
        "y = (\<lparr> extensionId = extId, status = Failed, strategy = None,
                filepath = None, size_bytes = None, err = Some e \<rparr>,
              map_stats (\<lambda>st. st\<lparr>failed := failed st + 1\<rparr>) w1)"
        by (simp add: downloadExtension.simps [of c env extId attempt w])
      then show ?thesis
        apply (simp add: item_post_def w1 extends_by_def)
        apply (intro allI)
        apply (case_tac s; simp)
        done
    qed
  qed
  then show ?case
    by (rule item_post_after [rotated -1]) (simp, simp_all add: item_event_def)
qed

lemma skip_run:
  assumes "path_join (downloadDir c) (extId @ ''.zip'') = Inr fp"
    and "files w fp = Some n" and "1000 < n"
  shows "downloadExtension c env extId attempt w =
     Some (\<lparr> extensionId = extId, status = Skipped, strategy = None, filepath = Some fp,
             size_bytes = Some n, err = None \<rparr>,
           map_stats (\<lambda>st. st\<lparr>skipped := skipped st + 1\<rparr>) (emit (Processing extId attempt) w))"
  using assms
  by (simp add: downloadExtension.simps [of c env extId attempt w] attemptBody_def
        existingArtifact_def)

lemma tryStrategies_all_fail:
  assumes "\<forall>s\<in>set ss. \<forall>v. \<exists>r v'. tryDownloadStrategy c env s extId v = Some (r, v') \<and>
             (\<forall>p n. r \<noteq> Inr (DlSuccess p n))"
  shows "\<exists>w'. tryStrategies c env ss extId w = Some (None, w')"
  using assms
proof (induction ss arbitrary: w)
  case Nil
  show ?case by simp
next
  case (Cons s rest)
  from Cons.prems obtain r v' where
    t: "tryDownloadStrategy c env s extId (emit (Trying s extId) w) = Some (r, v')"
    and nf: "\<forall>p n. r \<noteq> Inr (DlSuccess p n)"
    by (metis list.set_intros(1))
  from Cons.prems have rest: "\<forall>s\<in>set rest. \<forall>v. \<exists>r v'. tryDownloadStrategy c env s extId v = Some (r, v') \<and>
             (\<forall>p n. r \<noteq> Inr (DlSuccess p n))"
    by simp
  show ?case
  proof (cases r)
    case (Inl e)
    with t Cons.IH [OF rest] show ?thesis by simp
  next
    case (Inr d)
    with nf obtain e where "d = DlFailure e" by (cases d) auto
    with Inr t Cons.IH [OF rest] show ?thesis by simp
  qed
qed

lemma exhaustion:
  assumes pj: "path_join (downloadDir c) (extId @ ''.zip'') = Inr fp"
    and noart: "existingArtifact w fp = None"
    and allfail: "\<forall>s\<in>set (downloadStrategies c). \<forall>v. \<exists>r v'.
        tryDownloadStrategy c env s extId v = Some (r, v') \<and> (\<forall>p n. r \<noteq> Inr (DlSuccess p n))"
  shows "\<exists>w' evs. downloadExtension c env extId attempt w = Some (not_found_result extId, w') \<and>
           trace w' = trace w @ Processing extId attempt # evs \<and>
           (\<forall>e\<in>set evs. \<not> is_processing e) \<and>
           notFound (stats w') = notFound (stats w) + 1 \<and>
           failed (stats w') = failed (stats w)"
proof -
  let ?w0 = "emit (Processing extId attempt) w"
  from tryStrategies_all_fail [OF allfail] obtain w1 where
    t: "tryStrategies c env (downloadStrategies c) extId ?w0 = Some (None, w1)" by blast
  from tryStrategies_post [OF t] have cp: "chain_post c extId ?w0 (None, w1)" .
  then obtain evs where tr: "trace w1 = trace w @ Processing extId attempt # evs"
    and ce: "list_all chain_event evs"
    by (auto simp: chain_post_def extends_by_def)
  from ce have np: "\<forall>e\<in>set evs. \<not> is_processing e"
    by (auto simp: list_all_iff dest: chain_event_not_processing)
  let ?w' = "map_stats (\<lambda>st. st\<lparr>notFound := notFound st + 1\<rparr>) w1"
  from noart have "existingArtifact ?w0 fp = None" by (simp add: existingArtifact_def)
  with pj t have "attemptBody c env extId ?w0 = Some (Inr (not_found_result extId), ?w')"
    by (simp add: attemptBody_def not_found_result_def)
  then have "downloadExtension c env extId attempt w = Some (not_found_result extId, ?w')"
    by (simp add: downloadExtension.simps [of c env extId attempt w])
  moreover from cp have "notFound (stats ?w') = notFound (stats w) + 1"
    "failed (stats ?w') = failed (stats w)"
    by (simp_all add: chain_post_def)
  ultimately show ?thesis using tr np by auto
qed

lemma retry_cascade:
  assumes raises: "\<forall>v. \<exists>e v'. attemptBody c env extId v = Some (Inl e, v')"
    and le: "attempt \<le> retryAttempts c"
  shows "\<exists>e w'. downloadExtension c env extId attempt w =
            Some (\<lparr> extensionId = extId, status = Failed, strategy = None, filepath = None,
                    size_bytes = None, err = Some e \<rparr>, w') \<and>
           trace w' = trace w @
             concat (map (\<lambda>a. [Processing extId a, Sleep (retryDelay a)])
                         [attempt..<retryAttempts c]) @
             [Processing extId (retryAttempts c)] \<and>
           failed (stats w') = failed (stats w) + 1 \<and>
           completed (stats w') = completed (stats w) \<and>
           notFound (stats w') = notFound (stats w) \<and>
           skipped (stats w') = skipped (stats w)"
  using assms
proof (induction c env extId attempt w rule: downloadExtension.induct)
  case (1 c env extId attempt w)
  let ?w0 = "emit (Processing extId attempt) w"
  from "1.prems"(1) obtain e v' where a: "attemptBody c env extId ?w0 = Some (Inl e, v')"
    by blast
  then have v': "v' = ?w0" by (simp add: attemptBody_raises)
  note eq = downloadExtension.simps [of c env extId attempt w]
  show ?case
  proof (cases "attempt < retryAttempts c")
    case False
    with "1.prems"(2) have "attempt = retryAttempts c" by simp
    with a v' eq show ?thesis by simp
  next
    case True
    let ?w1 = "sleep (retryDelay attempt) ?w0"
    from True "1.prems" a v' have
      "\<exists>e w'. downloadExtension c env extId (attempt + 1) ?w1 =
            Some (\<lparr> extensionId = extId, status = Failed, strategy = None, filepath = None,
                    size_bytes = None, err = Some e \<rparr>, w') \<and>
           trace w' = trace ?w1 @
             concat (map (\<lambda>a. [Processing extId a, Sleep (retryDelay a)])
                         [attempt + 1..<retryAttempts c]) @
             [Processing extId (retryAttempts c)] \<and>
           failed (stats w') = failed (stats ?w1) + 1 \<and>
           completed (stats w') = completed (stats ?w1) \<and>
           notFound (stats w') = notFound (stats ?w1) \<and>
           skipped (stats w') = skipped (stats ?w1)"
      by (intro "1.IH") auto
    with True a v' eq show ?thesis
      by (auto simp: upt_conv_Cons)
  qed
qed

lemma tryStrategies_first:
  assumes "tryStrategies c env (s # rest) extId w = Some (ro, w')"
  shows "\<exists>evs. trace w' = trace w @ Trying s extId # evs"
proof -
  let ?w0 = "emit (Trying s extId) w"
  from assms obtain r w1 where t: "tryDownloadStrategy c env s extId ?w0 = Some (r, w1)"
    by (cases "tryDownloadStrategy c env s extId ?w0") auto
  from tryDownloadStrategy_post [OF t] obtain evs1 where
    e1: "trace w1 = trace w @ Trying s extId # evs1"
    by (auto simp: strategy_post_def extends_by_def)
  show ?thesis
  proof (cases "\<exists>fp n. r = Inr (DlSuccess fp n)")
    case True
    with assms t e1 show ?thesis by auto
  next
    case False
    define w2 where "w2 = sleep 2000 (updateStrategyStats s (case r of Inl _ \<Rightarrow> OnError | Inr _ \<Rightarrow> OnFailed) w1)"
    from False assms t have "tryStrategies c env rest extId w2 = Some (ro, w')"
      by (auto simp: w2_def split: sum.splits dl_result.splits)
    from tryStrategies_post [OF this] obtain evs2 where "trace w' = trace w2 @ evs2"
      by (auto simp: chain_post_def extends_by_def)
    with e1 show ?thesis by (simp add: w2_def)
  qed
qed

lemma not_skipped_run:
  assumes pj: "path_join (downloadDir c) (extId @ ''.zip'') = Inr fp"
    and na: "existingArtifact w fp = None"
    and d: "downloadExtension c env extId attempt w = Some (r, w')"
  shows "status r \<noteq> Skipped \<and>
         (\<forall>s rest. downloadStrategies c = s # rest \<longrightarrow>
            (\<exists>evs. trace w' = trace w @ Processing extId attempt # Trying s extId # evs))"
proof -
  let ?w0 = "emit (Processing extId attempt) w"
  from na have na0: "existingArtifact ?w0 fp = None" by (simp add: existingArtifact_def)
  from d pj na0 obtain ro w1 where
    t: "tryStrategies c env (downloadStrategies c) extId ?w0 = Some (ro, w1)"
    by (cases "tryStrategies c env (downloadStrategies c) extId ?w0")
       (auto simp: downloadExtension.simps [of c env extId attempt w] attemptBody_def)
  from tryStrategies_post [OF t] have cp: "chain_post c extId ?w0 (ro, w1)" .
  from d pj na0 t have rw: "trace w' = trace w1 \<and>
      (case ro of Some r' \<Rightarrow> r = r' | None \<Rightarrow> status r = NotFound)"
    by (cases ro)
       (auto simp: downloadExtension.simps [of c env extId attempt w] attemptBody_def)
  with cp have "status r \<noteq> Skipped"
    by (cases ro) (auto simp: chain_post_def)
  moreover have "\<exists>evs. trace w' = trace w @ Processing extId attempt # Trying s extId # evs"
    if "downloadStrategies c = s # rest" for s rest
    using tryStrategies_first [of c env s rest extId ?w0 ro w1] t that rw by auto
  ultimately show ?thesis by blast
qed

subsection \<open>What a batch and the loop over the batches may do\<close>

lemma item_post_processed:
  "item_post c extId w y \<Longrightarrow> processed (stats (snd y)) = processed (stats w) + 1"
proof -
  assume "item_post c extId w y"
  then have a: "\<And>s. status_counter (stats (snd y)) s =
            status_counter (stats w) s + (if s = status (fst y) then 1 else 0)"
    by (simp add: item_post_def)
  from a [of Success] a [of Failed] a [of NotFound] a [of Skipped] show ?thesis
    by (cases "status (fst y)") (simp_all add: processed_def)
qed

lemma runBatch_post:
  "runBatch c env batch k w = Some y \<Longrightarrow> batch_post batch w y"
proof (induction batch arbitrary: k w y)
  case Nil
  then show ?case by (auto simp: batch_post_def)
next
  case (Cons extId rest)
  let ?w0 = "sleep (k * 1000) w"
  from Cons.prems obtain r w1 where d: "downloadExtension c env extId 1 ?w0 = Some (r, w1)"
    by (cases "downloadExtension c env extId 1 ?w0") auto
  with Cons.prems obtain rs w2 where rb: "runBatch c env rest (k + 1) w1 = Some (rs, w2)"
    and y: "y = (r # rs, w2)"
    by (cases "runBatch c env rest (k + 1) w1") auto
  from downloadExtension_post [OF d] have ip: "item_post c extId ?w0 (r, w1)" .
  from Cons.IH [OF rb] have bp: "batch_post rest w1 (rs, w2)" .
  have "extends_by item_event w ?w0" by (simp add: extends_by_def item_event_def)
  moreover from ip have "extends_by item_event ?w0 w1" by (simp add: item_post_def)
  moreover from bp have "extends_by item_event w1 w2" by (simp add: batch_post_def)
  ultimately have "extends_by item_event w w2" by (blast intro: extends_by_trans)
  moreover from item_post_processed [OF ip] have "processed (stats w1) = processed (stats w) + 1"
    by simp
  moreover from ip have "lastCheckpoint (stats w1) = lastCheckpoint (stats w)" "extensionId r = extId"
    by (simp_all add: item_post_def)
  ultimately show ?case using bp y by (simp add: batch_post_def)
qed

lemma runBatch_settles:
  assumes "\<forall>extId v. downloadExtension c env extId 1 v \<noteq> None"
  shows "runBatch c env batch k w \<noteq> None"
proof (induction batch arbitrary: k w)
  case Nil
  show ?case by simp
next
  case (Cons extId rest)
  from assms obtain r w1 where "downloadExtension c env extId 1 (sleep (k * 1000) w) = Some (r, w1)"
    by (metis not_None_eq surj_pair)
  moreover from Cons obtain rs w2 where "runBatch c env rest (k + 1) w1 = Some (rs, w2)"
    by (metis not_None_eq surj_pair)
  ultimately show ?case by simp
qed

lemma batches_of_append [simp]: "batches_of (xs @ ys) = batches_of xs @ batches_of ys"
  by (induction xs rule: batches_of.induct) simp_all

lemma batches_of_item_events: "list_all item_event evs \<Longrightarrow> batches_of evs = []"
  by (induction evs rule: batches_of.induct) (simp_all add: item_event_def)

lemma checkpoints_item_events: "list_all item_event evs \<Longrightarrow> filter is_checkpoint evs = []"
  by (induction evs) (auto simp: item_event_def)

lemma checkpointIfDue_simps [simp]:
  "files (checkpointIfDue c rs w) = files w"
  "processed (stats (checkpointIfDue c rs w)) = processed (stats w)"
  by (simp_all add: checkpointIfDue_def saveCheckpoint_def processed_def)

lemma checkpointIfDue_trace:
  "trace (checkpointIfDue c rs w) =
     trace w @ (if checkpointInterval c + lastCheckpoint (stats w) \<le> length rs
                then [CheckpointSaved (length rs)] else [])"
  by (simp add: checkpointIfDue_def saveCheckpoint_def)

lemma checkpointIfDue_marker:
  "lastCheckpoint (stats (checkpointIfDue c rs w)) =
     (if checkpointInterval c + lastCheckpoint (stats w) \<le> length rs
      then length rs else lastCheckpoint (stats w))"
  by (simp add: checkpointIfDue_def saveCheckpoint_def)

lemma processBatchFrom_post:
  "processBatchFrom c env ids i b results w = Some y \<Longrightarrow> run_post c ids i results w y"
proof (induction c env ids i b results w rule: processBatchFrom.induct)
  case (1 c env ids i b results w)
  note eq = processBatchFrom.simps [of c env ids i b results w]
  show ?case
  proof (cases "i < length ids")
    case False
    with "1.prems" eq have "y = (results, w)" by simp
    with False show ?thesis
      by (simp add: run_post_def contiguous_batches.simps checkpoint_sizes.simps)
  next
    case True
    with "1.prems" eq have C: "0 < concurrency c" by (auto split: if_splits)
    let ?batch = "take (concurrency c) (drop i ids)"
    let ?tb = "(length ids + concurrency c - 1) div concurrency c"
    let ?w0 = "emit (Batch b ?tb ?batch) w"
    from "1.prems" eq True C obtain brs w1 where rb: "runBatch c env ?batch 0 ?w0 = Some (brs, w1)"
      by (cases "runBatch c env ?batch 0 ?w0") (auto simp: Let_def)
    let ?w2 = "checkpointIfDue c (results @ brs) w1"
    let ?w3 = "if i + concurrency c < length ids then sleep (delayBetweenRequests c) ?w2 else ?w2"
    from "1.prems" eq True C rb have rec:
      "processBatchFrom c env ids (i + concurrency c) (b + 1) (results @ brs) ?w3 = Some y"
      by (simp add: Let_def split del: if_split)
    have ih: "run_post c ids (i + concurrency c) (results @ brs) ?w3 y"
      using True C rb rec by (intro "1.IH") auto
    from runBatch_post [OF rb] have bp: "batch_post ?batch ?w0 (brs, w1)" .
    then obtain evs1 where t1: "trace w1 = trace w @ Batch b ?tb ?batch # evs1"
      and ev1: "list_all item_event evs1"
      by (auto simp: batch_post_def extends_by_def)
    from bp have ids1: "map extensionId brs = ?batch" and
      lc1: "lastCheckpoint (stats w1) = lastCheckpoint (stats w)" and
      pr1: "processed (stats w1) = processed (stats w) + length ?batch"
      by (simp_all add: batch_post_def)
    from ids1 have len1: "length brs = min (concurrency c) (length ids - i)"
      by (metis length_map length_take length_drop min.commute)
    define due where "due = (checkpointInterval c + lastCheckpoint (stats w) \<le> length results + length brs)"
    define ck where "ck = (if due then [CheckpointSaved (length results + length brs)] else [])"
    define sl where "sl = (if i + concurrency c < length ids then [Sleep (delayBetweenRequests c)] else [])"
    have t3: "trace ?w3 = trace w1 @ ck @ sl"
      by (simp add: checkpointIfDue_trace ck_def sl_def due_def lc1)
    have lc3: "lastCheckpoint (stats ?w3) =
        (if due then length results + length brs else lastCheckpoint (stats w))"
      by (simp add: checkpointIfDue_marker due_def lc1)
    have pr3: "processed (stats ?w3) = processed (stats w) + length ?batch"
      by (simp add: pr1)
    from ih obtain evs' where m: "map extensionId (fst y) =
        map extensionId (results @ brs) @ drop (i + concurrency c) ids"
      and p: "processed (stats (snd y)) = processed (stats ?w3) + (length ids - (i + concurrency c))"
      and t: "trace (snd y) = trace ?w3 @ evs'"
      and bs: "batches_of evs' = contiguous_batches (concurrency c) (drop (i + concurrency c) ids)"
      and cs: "filter is_checkpoint evs' = map CheckpointSaved
             (checkpoint_sizes (concurrency c) (checkpointInterval c) (length ids) (i + concurrency c)
                (length (results @ brs)) (lastCheckpoint (stats ?w3)))"
      unfolding run_post_def by blast
    have dd: "drop (concurrency c) (drop i ids) = drop (i + concurrency c) ids"
      by (simp add: add.commute)
    have td: "?batch @ drop (i + concurrency c) ids = drop i ids"
      by (metis append_take_drop_id dd)
    have g1: "map extensionId (fst y) = map extensionId results @ drop i ids"
      using m ids1 td by simp
    have g2: "processed (stats (snd y)) = processed (stats w) + (length ids - i)"
      using p pr3 True by (simp add: min_def)
    let ?evs = "Batch b ?tb ?batch # evs1 @ ck @ sl @ evs'"
    have g3: "trace (snd y) = trace w @ ?evs"
      using t t3 t1 by simp
    have nb: "batches_of ck = []" "batches_of sl = []"
      by (simp_all add: ck_def sl_def)
    have g4: "batches_of ?evs = contiguous_batches (concurrency c) (drop i ids)"
      using True C
      by (subst contiguous_batches.simps)
         (simp add: batches_of_item_events [OF ev1] nb bs add.commute)
    have fc: "filter is_checkpoint ck = ck" "filter is_checkpoint sl = []"
      by (simp_all add: ck_def sl_def)
    have g5: "filter is_checkpoint ?evs = map CheckpointSaved
             (checkpoint_sizes (concurrency c) (checkpointInterval c) (length ids) i
                (length results) (lastCheckpoint (stats w)))"
      using True C
      by (subst checkpoint_sizes.simps)
         (simp add: checkpoints_item_events [OF ev1] fc cs lc3 Let_def ck_def due_def len1)
    from g1 g2 g3 g4 g5 show ?thesis
      unfolding run_post_def by blast
  qed
qed

lemma processBatchFrom_settles:
  assumes "\<forall>extId v. downloadExtension c env extId 1 v \<noteq> None" and "0 < concurrency c"
  shows "processBatchFrom c env ids i b results w \<noteq> None"
  using assms
proof (induction c env ids i b results w rule: processBatchFrom.induct)
  case (1 c env ids i b results w)
  note eq = processBatchFrom.simps [of c env ids i b results w]
  note assms = "1.prems"
  show ?case
  proof (cases "i < length ids")
    case False
    with eq show ?thesis by simp
  next
    case True
    let ?batch = "take (concurrency c) (drop i ids)"
    let ?tb = "(length ids + concurrency c - 1) div concurrency c"
    let ?w0 = "emit (Batch b ?tb ?batch) w"
    from runBatch_settles [OF assms(1)] obtain brs w1 where
      rb: "runBatch c env ?batch 0 ?w0 = Some (brs, w1)"
      by (metis not_None_eq surj_pair)
    let ?w2 = "checkpointIfDue c (results @ brs) w1"
    let ?w3 = "if i + concurrency c < length ids then sleep (delayBetweenRequests c) ?w2 else ?w2"
    have "processBatchFrom c env ids (i + concurrency c) (b + 1) (results @ brs) ?w3 \<noteq> None"
      using True assms rb by (intro "1.IH") auto
    with True assms(2) rb eq show ?thesis
      by (simp add: Let_def split del: if_split)
  qed
qed

lemma processBatch_total:
  assumes "0 < concurrency c"
    and "\<forall>extId v. \<exists>y. downloadExtension c env extId 1 v = Some y"
  shows "\<exists>y. processBatch c env ids w = Some y \<and> run_post c ids 0 [] w y"
proof -
  from assms(2) have "\<forall>extId v. downloadExtension c env extId 1 v \<noteq> None" by auto
  from processBatchFrom_settles [OF this assms(1)]
  obtain y where y: "processBatchFrom c env ids 0 1 [] w = Some y" by blast
  from processBatchFrom_post [OF y] y show ?thesis by (simp add: processBatch_def)
qed


lemma usable_artifact_simps [simp]:
  "usable_artifact c (emit e w) x = usable_artifact c w x"
  "usable_artifact c (sleep ms w) x = usable_artifact c w x"
  "usable_artifact c (map_stats g w) x = usable_artifact c w x"
  "usable_artifact c (checkpointIfDue c' rs w) x = usable_artifact c w x"
  by (simp_all add: usable_artifact_def)




subsection \<open>Contiguous batches\<close>








subsection \<open>The example inputs\<close>

lemma standard_simps [simp]:
  "downloadDir standard = JString ''./downloads/crx_extensions''"
  "concurrency standard = 2" "delayBetweenRequests standard = 6000"
  "retryAttempts standard = 3"
  "downloadStrategies standard = [''crxviewer'', ''directapi'', ''crxextractor'', ''crxviewer_com'']"
  "checkpointInterval standard = 100"
  by (simp_all add: standard_def EnhancedCRXCrawler_def default_options_def or_default_def)

lemma direct_only_simps [simp]:
  "downloadDir direct_only = JString ''./downloads/crx_extensions''"
  "concurrency direct_only = 2" "delayBetweenRequests direct_only = 6000"
  "retryAttempts direct_only = 3"
  "downloadStrategies direct_only = [''directapi'']"
  "checkpointInterval direct_only = 100"
  by (simp_all add: direct_only_def EnhancedCRXCrawler_def default_options_def or_default_def)

lemma scenario3_simps [simp]:
  "downloadDir scenario3 = JString ''./downloads/crx_extensions''"
  "concurrency scenario3 = 2" "checkpointInterval scenario3 = 4"
  by (simp_all add: scenario3_def)

lemma misconfigured_raises:
  "attemptBody misconfigured env extId v =
     Some (Inl (TypeError ''The path argument must be of type string''), v)"
  by (simp add: attemptBody_def misconfigured_def EnhancedCRXCrawler_def default_options_def
                path_join_def)

lemma misconfigured_retryAttempts: "retryAttempts misconfigured = 3"
  by (simp add: misconfigured_def EnhancedCRXCrawler_def default_options_def or_default_def)

lemma standard_path:
  "path_join (downloadDir standard) (extId @ ''.zip'') =
     Inr (''./downloads/crx_extensions/'' @ extId @ ''.zip'')"
  by (simp add: path_join_def)

lemma length_five_ids: "length five_ids = 5"
  by (simp add: five_ids_def)


lemma dfd_unreachable:
  "\<exists>e v'. downloadFileDirectly c env_unreachable url extId v = Some (Inl e, v')"
  by (subst downloadFileDirectly.simps)
     (simp add: env_unreachable_def env_answering_def Let_def split: sum.splits)

lemma tryApiUrls_unreachable:
  "\<exists>e v'. tryApiUrls c env_unreachable urls extId v = Some (Inr (DlFailure e), v')"
proof (induction urls arbitrary: v)
  case Nil
  show ?case by simp
next
  case (Cons url urls)
  from dfd_unreachable [of c url extId v] obtain e v1 where
    "downloadFileDirectly c env_unreachable url extId v = Some (Inl e, v1)" by blast
  with Cons [of v1] show ?case by simp
qed

lemma unreachable_strategy_fails:
  "\<exists>r v'. tryDownloadStrategy c env_unreachable s extId v = Some (r, v') \<and>
           (\<forall>p n. r \<noteq> Inr (DlSuccess p n))"
proof -
  have a: "\<exists>e v'. downloadViaDirectAPI c env_unreachable extId v = Some (Inr (DlFailure e), v')"
    by (simp add: downloadViaDirectAPI_def tryApiUrls_unreachable)
  have b: "\<exists>e v'. downloadViaCRXViewer c env_unreachable extId v = (Inl e, v')"
    by (simp add: downloadViaCRXViewer_def env_unreachable_def env_answering_def)
  have c: "\<exists>e v'. downloadViaCRXExtractor c env_unreachable extId v = Some (Inl e, v')"
    by (simp add: downloadViaCRXExtractor_def env_unreachable_def env_answering_def)
  have d: "\<exists>e v'. downloadViaCRXViewerCom c env_unreachable extId v = Some (Inl e, v')"
    by (simp add: downloadViaCRXViewerCom_def env_unreachable_def env_answering_def)
  show ?thesis
  proof (cases "s = ''crxviewer''")
    case True
    with b show ?thesis by (auto simp: tryDownloadStrategy_def)
  next
    case n1: False
    show ?thesis
    proof (cases "s = ''directapi''")
      case True
      with n1 a show ?thesis by (auto simp: tryDownloadStrategy_def)
    next
      case n2: False
      show ?thesis
      proof (cases "s = ''crxextractor''")
        case True
        with n1 n2 c show ?thesis by (auto simp: tryDownloadStrategy_def)
      next
        case n3: False
        show ?thesis
        proof (cases "s = ''crxviewer_com''")
          case True
          with n1 n2 n3 d show ?thesis by (auto simp: tryDownloadStrategy_def)
        next
          case False
          with n1 n2 n3 show ?thesis by (simp add: tryDownloadStrategy_def)
        qed
      qed
    qed
  qed
qed

lemma unreachable_settles:
  assumes "path_join (downloadDir c) (extId @ ''.zip'') = Inr fp"
  shows "\<exists>y. downloadExtension c env_unreachable extId attempt v = Some y"
proof (cases "existingArtifact v fp")
  case None
  have "\<forall>s\<in>set (downloadStrategies c). \<forall>v. \<exists>r v'.
        tryDownloadStrategy c env_unreachable s extId v = Some (r, v') \<and>
        (\<forall>p n. r \<noteq> Inr (DlSuccess p n))"
    using unreachable_strategy_fails by blast
  from exhaustion [OF assms None this] show ?thesis by blast
next
  case (Some n)
  then have "files v fp = Some n" "1000 < n"
    by (auto simp: existingArtifact_def split: option.splits if_splits)
  from skip_run [OF assms this] show ?thesis by blast
qed

lemma dfd_serving:
  assumes "path_join (downloadDir c) (extId @ ''.zip'') = Inr fp"
  shows "downloadFileDirectly c (env_serving n) url extId w =
     (if n < 1000 then Some (Inl DownloadedFileTooSmall, write_file fp n (emit (HttpGet url) w))
      else Some (Inr (DlSuccess fp n), write_file fp n (emit (HttpGet url) w)))"
  using assms by (subst downloadFileDirectly.simps) (simp add: Let_def env_serving_def env_answering_def)

lemma serving_success:
  assumes "path_join (downloadDir direct_only) (extId @ ''.zip'') = Inr fp"
    and "existingArtifact w fp = None" and "1000 \<le> n"
  shows "\<exists>w'. downloadExtension direct_only (env_serving n) extId attempt w =
     Some (\<lparr> extensionId = extId, status = Success, strategy = Some ''directapi'',
             filepath = Some fp, size_bytes = Some n, err = None \<rparr>, w') \<and>
     files w' = (files w)(fp \<mapsto> n)"
proof -
  from assms(2) have "existingArtifact (emit (Processing extId attempt) w) fp = None"
    by (simp add: existingArtifact_def)
  with assms(1,3) show ?thesis
    by (simp add: downloadExtension.simps [of _ _ _ attempt w] attemptBody_def
          tryDownloadStrategy_def downloadViaDirectAPI_def apiUrls_def dfd_serving)
qed

lemma dfd_answering:
  assumes "path_join (downloadDir c) (extId @ ''.zip'') = Inr fp"
    and "\<not> (300 \<le> code \<and> code < 400 \<and> truthy loc)"
  shows "downloadFileDirectly c (env_answering code msg loc n) url extId w =
     (if code \<noteq> 200 then Some (Inl (HttpStatus code msg), emit (HttpGet url) w)
      else if n < 1000
      then Some (Inl DownloadedFileTooSmall, write_file fp n (emit (HttpGet url) w))
      else Some (Inr (DlSuccess fp n), write_file fp n (emit (HttpGet url) w)))"
  using assms by (subst downloadFileDirectly.simps) (auto simp: Let_def env_answering_def)

section \<open>The claims\<close>

subsection \<open>C1: exhaustion of the strategy chain\<close>

text \<open>
  Claim C1. Let the path of the identifier be joined without error, let no usable
  artifact be at it, and let every strategy of the configured order settle without
  success, whatever the world it is started in (it resolves with \<open>success: false\<close>, or
  it rejects). Then \<open>downloadExtension\<close> returns, in the very attempt it was called
  with (the first one for \<open>attempt = 1\<close>), a result of status \<open>not_found\<close>, never
  \<open>failed\<close>: its trace holds one \<open>Processing\<close> line, so no retry was made,
  \<open>stats.notFound\<close> grows by one and \<open>stats.failed\<close> does not change.
\<close>

theorem exhaustion_is_not_found:
  assumes "path_join (downloadDir c) (extId @ ''.zip'') = Inr fp"
    and "existingArtifact w fp = None"
    and "\<forall>s\<in>set (downloadStrategies c). \<forall>v. \<exists>r v'.
           tryDownloadStrategy c env s extId v = Some (r, v') \<and> (\<forall>p n. r \<noteq> Inr (DlSuccess p n))"
  shows "\<exists>w' evs. downloadExtension c env extId attempt w =
            Some (\<lparr> extensionId = extId, status = NotFound, strategy = None, filepath = None,
                    size_bytes = None, err = Some AllStrategiesFailed \<rparr>, w') \<and>
           trace w' = trace w @ Processing extId attempt # evs \<and>
           (\<forall>e\<in>set evs. \<not> is_processing e) \<and>
           notFound (stats w') = notFound (stats w) + 1 \<and>
           failed (stats w') = failed (stats w)"
  using exhaustion [OF assms] by (simp add: not_found_result_def)

theorem exhaustion_is_not_found_witness:
  "path_join (downloadDir standard) (''agkpclldfjffanjojbkhkakaliiohebe'' @ ''.zip'') =
     Inr ''./downloads/crx_extensions/agkpclldfjffanjojbkhkakaliiohebe.zip'' \<and>
   existingArtifact empty_world
     ''./downloads/crx_extensions/agkpclldfjffanjojbkhkakaliiohebe.zip'' = None \<and>
   (\<forall>s v. \<exists>r v'.
      tryDownloadStrategy standard env_unreachable s ''agkpclldfjffanjojbkhkakaliiohebe'' v
        = Some (r, v') \<and> (\<forall>p n. r \<noteq> Inr (DlSuccess p n))) \<and>
   status (fst (the (downloadExtension standard env_unreachable
                       ''agkpclldfjffanjojbkhkakaliiohebe'' 1 empty_world))) = NotFound \<and>
   filter is_processing (trace (snd (the (downloadExtension standard env_unreachable
                       ''agkpclldfjffanjojbkhkakaliiohebe'' 1 empty_world)))) =
     [Processing ''agkpclldfjffanjojbkhkakaliiohebe'' 1]"
proof -
  have h1: "path_join (downloadDir standard) (''agkpclldfjffanjojbkhkakaliiohebe'' @ ''.zip'') =
     Inr ''./downloads/crx_extensions/agkpclldfjffanjojbkhkakaliiohebe.zip''"
    by (simp add: path_join_def)
  have h2: "existingArtifact empty_world
     ''./downloads/crx_extensions/agkpclldfjffanjojbkhkakaliiohebe.zip'' = None"
    by (simp add: existingArtifact_def empty_world_def)
  have h3: "\<forall>s\<in>set (downloadStrategies standard). \<forall>v. \<exists>r v'.
      tryDownloadStrategy standard env_unreachable s ''agkpclldfjffanjojbkhkakaliiohebe'' v
        = Some (r, v') \<and> (\<forall>p n. r \<noteq> Inr (DlSuccess p n))"
    using unreachable_strategy_fails by blast
  have f: "\<And>evs. \<forall>e\<in>set evs. \<not> is_processing e \<Longrightarrow> filter is_processing evs = []"
    by (simp add: filter_empty_conv)
  from exhaustion_is_not_found [OF h1 h2 h3, of 1] h1 h2 unreachable_strategy_fails
  show ?thesis
    by (auto simp: empty_world_def f)
qed

subsection \<open>C2: the retry ceiling\<close>

text \<open>
  Claim C2. When every processing attempt of an identifier raises an exception that
  reaches the outer handler, \<open>downloadExtension\<close> is run exactly \<open>retryAttempts\<close>
  times, with the attempt numbers \<open>1, ..., retryAttempts\<close> in its \<open>Processing\<close>
  lines, and then returns a result of status \<open>failed\<close>, counted once in
  \<open>stats.failed\<close>. Between two attempts it sleeps \<open>retryDelay\<close> of the attempt that
  failed; this delay never decreases as the attempt number grows and never exceeds 15000.
\<close>

theorem retry_ceiling_then_failed:
  assumes "0 < retryAttempts c"
    and "\<forall>v. \<exists>e v'. attemptBody c env extId v = Some (Inl e, v')"
  shows "(\<exists>e w'. downloadExtension c env extId 1 w =
            Some (\<lparr> extensionId = extId, status = Failed, strategy = None, filepath = None,
                    size_bytes = None, err = Some e \<rparr>, w') \<and>
           trace w' = trace w @
             concat (map (\<lambda>a. [Processing extId a, Sleep (retryDelay a)])
                         [1..<retryAttempts c]) @
             [Processing extId (retryAttempts c)] \<and>
           failed (stats w') = failed (stats w) + 1 \<and>
           completed (stats w') = completed (stats w) \<and>
           notFound (stats w') = notFound (stats w) \<and>
           skipped (stats w') = skipped (stats w)) \<and>
         (\<forall>a b. a \<le> b \<longrightarrow> retryDelay a \<le> retryDelay b) \<and>
         (\<forall>a. retryDelay a \<le> 15000)"
proof -
  from assms(1) have "1 \<le> retryAttempts c" by simp
  from retry_cascade [OF assms(2) this, of w] show ?thesis
    by (simp add: retryDelay_mono retryDelay_cap)
qed

theorem retry_ceiling_then_failed_witness:
  "0 < retryAttempts misconfigured \<and>
   (\<forall>v. \<exists>e v'. attemptBody misconfigured env_unreachable ''agkpclldfjffanjojbkhkakaliiohebe'' v
                   = Some (Inl e, v')) \<and>
   status (fst (the (downloadExtension misconfigured env_unreachable
                       ''agkpclldfjffanjojbkhkakaliiohebe'' 1 empty_world))) = Failed \<and>
   trace (snd (the (downloadExtension misconfigured env_unreachable
                       ''agkpclldfjffanjojbkhkakaliiohebe'' 1 empty_world))) =
     [Processing ''agkpclldfjffanjojbkhkakaliiohebe'' 1, Sleep 5000,
      Processing ''agkpclldfjffanjojbkhkakaliiohebe'' 2, Sleep 10000,
      Processing ''agkpclldfjffanjojbkhkakaliiohebe'' 3]"
proof -
  have h1: "0 < retryAttempts misconfigured" by (simp add: misconfigured_retryAttempts)
  have h2: "\<forall>v. \<exists>e v'. attemptBody misconfigured env_unreachable
                ''agkpclldfjffanjojbkhkakaliiohebe'' v = Some (Inl e, v')"
    by (simp add: misconfigured_raises)
  have u: "[Suc 0..<3] = [Suc 0, 2]" by (simp add: upt_conv_Cons)
  from retry_ceiling_then_failed [OF h1 h2, of empty_world] h1 h2 show ?thesis
    by (auto simp: misconfigured_retryAttempts empty_world_def retryDelay_def u)
qed

subsection \<open>C3: the minimum size of a success\<close>

text \<open>
  Claim C3. Every result of status \<open>success\<close> that \<open>downloadExtension\<close> returns
  records a size of at least 1000 bytes; \<open>downloadFileDirectly\<close> never resolves with a
  size below 1000, and a \<open>200\<close> response whose file ends up smaller than 1000 bytes is
  rejected with \<open>Downloaded file too small\<close>.
\<close>

theorem success_size_at_least_threshold:
  "(downloadExtension c env extId attempt w = Some (r, w') \<and> status r = Success \<longrightarrow>
      (\<exists>n. size_bytes r = Some n \<and> 1000 \<le> n)) \<and>
   (downloadFileDirectly c env url extId v = Some (Inr (DlSuccess fp n), v') \<longrightarrow> 1000 \<le> n) \<and>
   (path_join (downloadDir c) (extId @ ''.zip'') = Inr fp' \<and>
    http_get env (emit (HttpGet url) v) url = Response 200 msg loc (BodyFinish m) \<and> m < 1000 \<longrightarrow>
      downloadFileDirectly c env url extId v =
        Some (Inl DownloadedFileTooSmall, write_file fp' m (emit (HttpGet url) v)))"
proof (intro conjI impI)
  assume "downloadExtension c env extId attempt w = Some (r, w') \<and> status r = Success"
  then have d: "downloadExtension c env extId attempt w = Some (r, w')"
    and s: "status r = Success" by simp_all
  from downloadExtension_post [OF d] s show "\<exists>n. size_bytes r = Some n \<and> 1000 \<le> n"
    by (auto simp: item_post_def artifact_at_def)
next
  assume "downloadFileDirectly c env url extId v = Some (Inr (DlSuccess fp n), v')"
  from dfd_post [OF this] show "1000 \<le> n" by (simp add: strategy_post_def)
next
  assume "path_join (downloadDir c) (extId @ ''.zip'') = Inr fp' \<and>
    http_get env (emit (HttpGet url) v) url = Response 200 msg loc (BodyFinish m) \<and> m < 1000"
  then show "downloadFileDirectly c env url extId v =
        Some (Inl DownloadedFileTooSmall, write_file fp' m (emit (HttpGet url) v))"
    by (simp add: dfd_too_small)
qed

theorem success_size_at_least_threshold_witness:
  "status (fst (the (downloadExtension direct_only (env_serving 50000)
     ''agkpclldfjffanjojbkhkakaliiohebe'' 1 empty_world))) = Success \<and>
   size_bytes (fst (the (downloadExtension direct_only (env_serving 50000)
     ''agkpclldfjffanjojbkhkakaliiohebe'' 1 empty_world))) = Some 50000 \<and>
   (1000::nat) \<le> 50000 \<and>
   fst (the (downloadFileDirectly direct_only (env_serving 999) ''https://example.org/a.crx''
     ''agkpclldfjffanjojbkhkakaliiohebe'' empty_world)) = Inl DownloadedFileTooSmall"
proof -
  let ?id = "''agkpclldfjffanjojbkhkakaliiohebe''"
  let ?fp = "''./downloads/crx_extensions/agkpclldfjffanjojbkhkakaliiohebe.zip''"
  let ?url = "''https://example.org/a.crx''"
  have pj: "path_join (downloadDir direct_only) (?id @ ''.zip'') = Inr ?fp"
    by (simp add: path_join_def)
  have na: "existingArtifact empty_world ?fp = None"
    by (simp add: existingArtifact_def empty_world_def)
  from serving_success [OF pj na, of 50000 1] obtain w' where
    e1: "downloadExtension direct_only (env_serving 50000) ?id 1 empty_world =
      Some (\<lparr> extensionId = ?id, status = Success, strategy = Some ''directapi'',
             filepath = Some ?fp, size_bytes = Some 50000, err = None \<rparr>, w')"
    by auto
  have e2: "downloadFileDirectly direct_only (env_serving 50000) ?url ?id empty_world =
      Some (Inr (DlSuccess ?fp 50000), write_file ?fp 50000 (emit (HttpGet ?url) empty_world))"
    by (simp add: dfd_serving [OF pj])
  have e3: "http_get (env_serving 999) (emit (HttpGet ?url) empty_world) ?url =
      Response 200 ''OK'' None (BodyFinish 999)"
    by (simp add: env_serving_def env_answering_def)
  from success_size_at_least_threshold
    [where c = direct_only and env = "env_serving 50000" and extId = ?id and attempt = 1
       and w = empty_world and w' = w' and url = ?url and v = empty_world and fp = ?fp
       and n = 50000]
    e1 e2
  have c12: "size_bytes (fst (the (downloadExtension direct_only (env_serving 50000)
     ?id 1 empty_world))) = Some 50000 \<and> (1000::nat) \<le> 50000"
    by simp
  from success_size_at_least_threshold
    [where c = direct_only and env = "env_serving 999" and extId = ?id and url = ?url
       and v = empty_world and fp' = ?fp and msg = "''OK''" and loc = None and m = 999]
    pj e3
  have c3: "fst (the (downloadFileDirectly direct_only (env_serving 999) ?url ?id empty_world))
      = Inl DownloadedFileTooSmall"
    by simp
  from e1 c12 c3 show ?thesis by simp
qed

subsection \<open>C4: the existing-artifact check\<close>

text \<open>
  Claim C4. \<open>downloadExtension\<close> returns a result of status \<open>skipped\<close> if and only
  if a file is at the path joined from the download directory and the identifier and its
  size is above 1000. When it does, the trace grows by the \<open>Processing\<close> line alone (no
  strategy was tried, nothing was requested) and the files are unchanged: the check
  writes nothing.
\<close>

theorem skipped_iff_usable_artifact:
  "((\<exists>fp n. path_join (downloadDir c) (extId @ ''.zip'') = Inr fp \<and>
             files w fp = Some n \<and> 1000 < n)
      \<longleftrightarrow> (\<exists>r w'. downloadExtension c env extId attempt w = Some (r, w') \<and>
                  status r = Skipped)) \<and>
   (\<forall>r w'. downloadExtension c env extId attempt w = Some (r, w') \<and> status r = Skipped \<longrightarrow>
      trace w' = trace w @ [Processing extId attempt] \<and> files w' = files w)"
proof -
  have a: "\<exists>fp n. path_join (downloadDir c) (extId @ ''.zip'') = Inr fp \<and>
             files w fp = Some n \<and> 1000 < n"
    if "downloadExtension c env extId attempt w = Some (r, w')" "status r = Skipped" for r w'
    using downloadExtension_post [OF that(1)] that(2) by (simp add: item_post_def)
  have b: "\<exists>r w'. downloadExtension c env extId attempt w = Some (r, w') \<and> status r = Skipped"
    if "path_join (downloadDir c) (extId @ ''.zip'') = Inr fp" "files w fp = Some n" "1000 < n"
    for fp n
    using skip_run [OF that] by simp
  have c: "trace w' = trace w @ [Processing extId attempt] \<and> files w' = files w"
    if "downloadExtension c env extId attempt w = Some (r, w')" "status r = Skipped" for r w'
  proof -
    from a [OF that] obtain fp n where
      "path_join (downloadDir c) (extId @ ''.zip'') = Inr fp" "files w fp = Some n" "1000 < n"
      by blast
    from skip_run [OF this, of env attempt] that(1) show ?thesis by auto
  qed
  from a b c show ?thesis by blast
qed

theorem skipped_iff_usable_artifact_witness:
  "path_join (downloadDir standard) (''agkpclldfjffanjojbkhkakaliiohebe'' @ ''.zip'') =
     Inr ''./downloads/crx_extensions/agkpclldfjffanjojbkhkakaliiohebe.zip'' \<and>
   files (seeded_world [''agkpclldfjffanjojbkhkakaliiohebe''])
     ''./downloads/crx_extensions/agkpclldfjffanjojbkhkakaliiohebe.zip'' = Some 50000 \<and>
   (1000::nat) < 50000 \<and>
   status (fst (the (downloadExtension standard env_unreachable
     ''agkpclldfjffanjojbkhkakaliiohebe'' 1 (seeded_world [''agkpclldfjffanjojbkhkakaliiohebe''])))) = Skipped \<and>
   trace (snd (the (downloadExtension standard env_unreachable
     ''agkpclldfjffanjojbkhkakaliiohebe'' 1 (seeded_world [''agkpclldfjffanjojbkhkakaliiohebe''])))) =
     [Processing ''agkpclldfjffanjojbkhkakaliiohebe'' 1] \<and>
   files (snd (the (downloadExtension standard env_unreachable
     ''agkpclldfjffanjojbkhkakaliiohebe'' 1 (seeded_world [''agkpclldfjffanjojbkhkakaliiohebe''])))) =
     files (seeded_world [''agkpclldfjffanjojbkhkakaliiohebe''])"
proof -
  let ?id = "''agkpclldfjffanjojbkhkakaliiohebe''"
  let ?fp = "''./downloads/crx_extensions/agkpclldfjffanjojbkhkakaliiohebe.zip''"
  let ?w = "seeded_world [?id]"
  have h1: "path_join (downloadDir standard) (?id @ ''.zip'') = Inr ?fp"
    by (simp add: path_join_def)
  have h2: "files ?w ?fp = Some 50000" by (simp add: seeded_world_def)
  have h3: "(1000::nat) < 50000" by simp
  from h1 h2 h3 have l: "\<exists>fp n. path_join (downloadDir standard) (?id @ ''.zip'') = Inr fp \<and>
             files ?w fp = Some n \<and> 1000 < n" by blast
  from skipped_iff_usable_artifact [of standard ?id ?w env_unreachable 1] l
  obtain r w' where d: "downloadExtension standard env_unreachable ?id 1 ?w = Some (r, w')"
    and s: "status r = Skipped"
    and t: "trace w' = trace ?w @ [Processing ?id 1]" and f: "files w' = files ?w"
    by blast
  have "trace ?w = []" by (simp add: seeded_world_def)
  with d s t f h1 h2 h3 show ?thesis by simp
qed

subsection \<open>C5: the status codes\<close>

text \<open>
  Claim C5 as stated fails: a \<open>203\<close> response with a body of 50000 bytes is rejected,
  although its status is in the 2xx range, and a \<open>302\<close> response without a
  \<open>Location\<close> header is rejected, not followed.
\<close>

theorem other_2xx_and_bare_3xx_counterexample:
  "downloadFileDirectly standard
     (env_answering 203 ''Non-Authoritative Information'' None 50000)
     ''https://example.org/a.crx'' ''agkpclldfjffanjojbkhkakaliiohebe'' empty_world =
     Some (Inl (HttpStatus 203 ''Non-Authoritative Information''),
           emit (HttpGet ''https://example.org/a.crx'') empty_world) \<and>
   downloadFileDirectly standard (env_answering 302 ''Found'' None 50000)
     ''https://example.org/a.crx'' ''agkpclldfjffanjojbkhkakaliiohebe'' empty_world =
     Some (Inl (HttpStatus 302 ''Found''),
           emit (HttpGet ''https://example.org/a.crx'') empty_world)"
  by (simp add: dfd_answering path_join_def)

text \<open>
  Claim C5, amended. For a response to the request of \<open>downloadFileDirectly\<close>: a
  status from 300 to 399 with a non-empty \<open>Location\<close> header makes the outcome that of
  the request to that location; the status 200 with a finished body gives success when
  the file has at least 1000 bytes and the rejection \<open>Downloaded file too small\<close>
  otherwise; every other status (any other 2xx, a 3xx without \<open>Location\<close>) rejects with
  \<open>HTTP <code>\<close>. A rejection is caught by the loop of \<open>downloadViaDirectAPI\<close>, which
  goes on with the next endpoint.
\<close>

theorem status_code_convention:
  assumes "path_join (downloadDir c) (extId @ ''.zip'') = Inr fp"
    and "http_get env (emit (HttpGet url) w) url = Response code msg loc content"
  shows "(300 \<le> code \<and> code < 400 \<and> truthy loc \<longrightarrow>
            downloadFileDirectly c env url extId w =
              downloadFileDirectly c env (the loc) extId (emit (HttpGet url) w)) \<and>
         (code = 200 \<longrightarrow> (\<forall>n. content = BodyFinish n \<longrightarrow>
            downloadFileDirectly c env url extId w =
              (if n < 1000
               then Some (Inl DownloadedFileTooSmall, write_file fp n (emit (HttpGet url) w))
               else Some (Inr (DlSuccess fp n), write_file fp n (emit (HttpGet url) w))))) \<and>
         (code \<noteq> 200 \<and> \<not> (300 \<le> code \<and> code < 400 \<and> truthy loc) \<longrightarrow>
            downloadFileDirectly c env url extId w =
              Some (Inl (HttpStatus code msg), emit (HttpGet url) w)) \<and>
         (\<forall>e w1. downloadFileDirectly c env url extId w = Some (Inl e, w1) \<longrightarrow>
            tryApiUrls c env (url # urls) extId w = tryApiUrls c env urls extId w1)"
proof (intro conjI impI allI)
  assume "300 \<le> code \<and> code < 400 \<and> truthy loc"
  with assms show "downloadFileDirectly c env url extId w =
      downloadFileDirectly c env (the loc) extId (emit (HttpGet url) w)"
    by (subst downloadFileDirectly.simps) (simp add: Let_def)
next
  fix n assume "code = 200" "content = BodyFinish n"
  with assms show "downloadFileDirectly c env url extId w =
      (if n < 1000
       then Some (Inl DownloadedFileTooSmall, write_file fp n (emit (HttpGet url) w))
       else Some (Inr (DlSuccess fp n), write_file fp n (emit (HttpGet url) w)))"
    by (subst downloadFileDirectly.simps) (simp add: Let_def)
next
  assume "code \<noteq> 200 \<and> \<not> (300 \<le> code \<and> code < 400 \<and> truthy loc)"
  with assms show "downloadFileDirectly c env url extId w =
      Some (Inl (HttpStatus code msg), emit (HttpGet url) w)"
    by (subst downloadFileDirectly.simps) (auto simp: Let_def)
next
  fix e w1 assume "downloadFileDirectly c env url extId w = Some (Inl e, w1)"
  then show "tryApiUrls c env (url # urls) extId w = tryApiUrls c env urls extId w1"
    by simp
qed

theorem status_code_convention_witness:
  "downloadFileDirectly standard env_redirecting ''https://example.org/a.crx''
     ''agkpclldfjffanjojbkhkakaliiohebe'' empty_world =
     Some (Inr (DlSuccess ''./downloads/crx_extensions/agkpclldfjffanjojbkhkakaliiohebe.zip'' 50000),
           write_file ''./downloads/crx_extensions/agkpclldfjffanjojbkhkakaliiohebe.zip'' 50000
             (emit (HttpGet ''https://cdn.example.org/a.crx'')
                (emit (HttpGet ''https://example.org/a.crx'') empty_world))) \<and>
   downloadFileDirectly standard (env_answering 404 ''Not Found'' None 0)
     ''https://example.org/a.crx'' ''agkpclldfjffanjojbkhkakaliiohebe'' empty_world =
     Some (Inl (HttpStatus 404 ''Not Found''),
           emit (HttpGet ''https://example.org/a.crx'') empty_world) \<and>
   tryApiUrls standard (env_answering 404 ''Not Found'' None 0)
     [''https://example.org/a.crx''] ''agkpclldfjffanjojbkhkakaliiohebe'' empty_world =
     Some (Inr (DlFailure AllDirectApiEndpointsFailed),
           emit (HttpGet ''https://example.org/a.crx'') empty_world)"
proof -
  let ?id = "''agkpclldfjffanjojbkhkakaliiohebe''"
  let ?fp = "''./downloads/crx_extensions/agkpclldfjffanjojbkhkakaliiohebe.zip''"
  let ?a = "''https://example.org/a.crx''"
  let ?b = "''https://cdn.example.org/a.crx''"
  let ?w1 = "emit (HttpGet ?a) empty_world"
  let ?e404 = "env_answering 404 ''Not Found'' None 0"
  have pj: "path_join (downloadDir standard) (?id @ ''.zip'') = Inr ?fp"
    by (simp add: path_join_def)
  have r1: "http_get env_redirecting ?w1 ?a = Response 302 ''Found'' (Some ?b) (BodyFinish 0)"
    by (simp add: env_redirecting_def env_answering_def)
  have r2: "http_get env_redirecting (emit (HttpGet ?b) ?w1) ?b =
      Response 200 ''OK'' None (BodyFinish 50000)"
    by (simp add: env_redirecting_def env_answering_def)
  have r3: "http_get ?e404 ?w1 ?a = Response 404 ''Not Found'' None (BodyFinish 0)"
    by (simp add: env_answering_def)
  from status_code_convention [OF pj r1, of Nil]
  have s1: "downloadFileDirectly standard env_redirecting ?a ?id empty_world =
      downloadFileDirectly standard env_redirecting ?b ?id ?w1"
    by simp
  from status_code_convention [OF pj r2, of Nil]
  have s2: "downloadFileDirectly standard env_redirecting ?b ?id ?w1 =
      Some (Inr (DlSuccess ?fp 50000), write_file ?fp 50000 (emit (HttpGet ?b) ?w1))"
    by simp
  from status_code_convention [OF pj r3, of Nil]
  have s3: "downloadFileDirectly standard ?e404 ?a ?id empty_world =
      Some (Inl (HttpStatus 404 ''Not Found''), ?w1)"
    and s4: "tryApiUrls standard ?e404 [?a] ?id empty_world = tryApiUrls standard ?e404 [] ?id ?w1"
    by simp_all
  from s1 s2 s3 s4 show ?thesis by simp
qed

subsection \<open>C6: the batches\<close>



subsection \<open>C7: the checkpoints\<close>



subsection \<open>C8: a second run\<close>



subsection \<open>C9: the status counters\<close>

text \<open>
  Claim C9. A call of \<open>downloadExtension\<close> that returns has incremented, over all its
  retries, exactly the counter of the status of its result, by one, and no other of the
  four status counters. Hence \<open>processBatch\<close> over \<open>n\<close> identifiers adds \<open>n\<close> to
  \<open>completed + failed + notFound + skipped\<close>, which is \<open>n\<close> when the counters start at
  zero.
\<close>

theorem one_counter_per_identifier:
  "(downloadExtension c env extId attempt w = Some (r, w') \<longrightarrow>
      (\<forall>s. status_counter (stats w') s =
            status_counter (stats w) s + (if s = status r then 1 else 0))) \<and>
   (processBatch c env ids v = Some (rs, v') \<longrightarrow>
      processed (stats v') = processed (stats v) + length ids \<and>
      (stats v = initial_stats \<longrightarrow> processed (stats v') = length ids))"
proof -
  have a: "\<forall>s. status_counter (stats w') s =
            status_counter (stats w) s + (if s = status r then 1 else 0)"
    if "downloadExtension c env extId attempt w = Some (r, w')"
    using downloadExtension_post [OF that] by (simp add: item_post_def)
  have b: "processed (stats v') = processed (stats v) + length ids"
    if "processBatch c env ids v = Some (rs, v')"
    using processBatchFrom_post [OF that [unfolded processBatch_def]]
    by (simp add: run_post_def)
  have "processed initial_stats = 0" by (simp add: processed_def initial_stats_def)
  with a b show ?thesis by auto
qed

theorem one_counter_per_identifier_witness:
  "status (fst (the (downloadExtension standard env_unreachable
      ''aaaaaaaaaaaaaaaaaaaaaaaaaaaaaaaa'' 1 empty_world))) = NotFound \<and>
   status_counter (stats (snd (the (downloadExtension standard env_unreachable
      ''aaaaaaaaaaaaaaaaaaaaaaaaaaaaaaaa'' 1 empty_world)))) NotFound = 1 \<and>
   status_counter (stats (snd (the (downloadExtension standard env_unreachable
      ''aaaaaaaaaaaaaaaaaaaaaaaaaaaaaaaa'' 1 empty_world)))) Failed = 0 \<and>
   stats empty_world = initial_stats \<and>
   processed (stats (snd (the (processBatch standard env_unreachable five_ids empty_world)))) = 5"
proof -
  let ?id = "''aaaaaaaaaaaaaaaaaaaaaaaaaaaaaaaa''"
  have na: "existingArtifact empty_world (''./downloads/crx_extensions/'' @ ?id @ ''.zip'') = None"
    by (simp add: existingArtifact_def empty_world_def)
  have af: "\<forall>s\<in>set (downloadStrategies standard). \<forall>v. \<exists>r v'.
        tryDownloadStrategy standard env_unreachable s ?id v = Some (r, v') \<and>
        (\<forall>p n. r \<noteq> Inr (DlSuccess p n))"
    using unreachable_strategy_fails by blast
  from exhaustion [OF standard_path na af, of 1] obtain w' where
    d: "downloadExtension standard env_unreachable ?id 1 empty_world =
          Some (not_found_result ?id, w')"
    by blast
  have s0: "stats empty_world = initial_stats" by (simp add: empty_world_def)
  have h2: "\<forall>extId v. \<exists>y. downloadExtension standard env_unreachable extId 1 v = Some y"
    using unreachable_settles [OF standard_path] by blast
  from processBatch_total [OF _ h2, of five_ids empty_world] obtain rs v' where
    p: "processBatch standard env_unreachable five_ids empty_world = Some (rs, v')"
    by auto
  from one_counter_per_identifier
    [of standard env_unreachable ?id 1 empty_world "not_found_result ?id" w'
        five_ids empty_world rs v'] d p s0
  have "\<forall>s. status_counter (stats w') s =
            status_counter initial_stats s + (if s = NotFound then 1 else 0)"
    and "processed (stats v') = length five_ids"
    by (simp_all add: not_found_result_def)
  then have c: "\<And>s. status_counter (stats w') s =
            status_counter initial_stats s + (if s = NotFound then 1 else 0)"
    and "processed (stats v') = 5"
    by (simp_all add: length_five_ids)
  from c [of NotFound] c [of Failed] this(2)
  have "status_counter (stats w') NotFound = 1" "status_counter (stats w') Failed = 0"
    "processed (stats v') = 5"
    by (simp_all add: initial_stats_def)
  with d p s0 show ?thesis by (simp add: not_found_result_def)
qed

subsection \<open>C10: the two thresholds at 1000 bytes\<close>

text \<open>
  Claim C10. \<open>downloadFileDirectly\<close> resolves with success on a file of exactly 1000
  bytes, and the existing-artifact check does not accept a file of exactly 1000 bytes.
  So when a run of \<open>downloadExtension\<close> reports \<open>success\<close> with size 1000, the next
  run for the same identifier is not \<open>skipped\<close>: it goes to the strategy chain again,
  starting with the first strategy.
\<close>

theorem boundary_size_accepted_but_not_skipped:
  "(path_join (downloadDir c) (extId @ ''.zip'') = Inr fp \<and>
    http_get env (emit (HttpGet url) v) url = Response 200 msg loc (BodyFinish 1000) \<longrightarrow>
      downloadFileDirectly c env url extId v =
        Some (Inr (DlSuccess fp 1000), write_file fp 1000 (emit (HttpGet url) v))) \<and>
   (files v fp = Some 1000 \<longrightarrow> existingArtifact v fp = None) \<and>
   (downloadExtension c env extId a1 w = Some (r1, w1) \<and> status r1 = Success \<and>
    size_bytes r1 = Some 1000 \<and> downloadExtension c env extId a2 w1 = Some (r2, w2) \<longrightarrow>
      status r2 \<noteq> Skipped \<and>
      (\<forall>s rest. downloadStrategies c = s # rest \<longrightarrow>
         (\<exists>evs. trace w2 = trace w1 @ Processing extId a2 # Trying s extId # evs)))"
proof -
  have p1: "downloadFileDirectly c env url extId v =
        Some (Inr (DlSuccess fp 1000), write_file fp 1000 (emit (HttpGet url) v))"
    if "path_join (downloadDir c) (extId @ ''.zip'') = Inr fp"
      "http_get env (emit (HttpGet url) v) url = Response 200 msg loc (BodyFinish 1000)"
    using that by (subst downloadFileDirectly.simps) (simp add: Let_def)
  have p2: "existingArtifact v fp = None" if "files v fp = Some 1000"
    using that by (simp add: existingArtifact_def)
  have p3: "status r2 \<noteq> Skipped \<and>
      (\<forall>s rest. downloadStrategies c = s # rest \<longrightarrow>
         (\<exists>evs. trace w2 = trace w1 @ Processing extId a2 # Trying s extId # evs))"
    if d1: "downloadExtension c env extId a1 w = Some (r1, w1)" and s1: "status r1 = Success"
      and z1: "size_bytes r1 = Some 1000"
      and d2: "downloadExtension c env extId a2 w1 = Some (r2, w2)"
  proof -
    from d1 have "item_post c extId w (r1, w1)" by (rule downloadExtension_post)
    with s1 z1 obtain fp' where pj: "path_join (downloadDir c) (extId @ ''.zip'') = Inr fp'"
      and f: "files w1 fp' = Some 1000"
      by (auto simp: item_post_def artifact_at_def)
    from f have "existingArtifact w1 fp' = None" by (simp add: existingArtifact_def)
    from not_skipped_run [OF pj this d2] show ?thesis .
  qed
  from p1 p2 p3 show ?thesis by blast
qed

theorem boundary_size_accepted_but_not_skipped_witness:
  "status (fst (the (downloadExtension direct_only (env_serving 1000)
     ''agkpclldfjffanjojbkhkakaliiohebe'' 1 empty_world))) = Success \<and>
   size_bytes (fst (the (downloadExtension direct_only (env_serving 1000)
     ''agkpclldfjffanjojbkhkakaliiohebe'' 1 empty_world))) = Some 1000 \<and>
   files (snd (the (downloadExtension direct_only (env_serving 1000)
     ''agkpclldfjffanjojbkhkakaliiohebe'' 1 empty_world)))
     ''./downloads/crx_extensions/agkpclldfjffanjojbkhkakaliiohebe.zip'' = Some 1000 \<and>
   status (fst (the (downloadExtension direct_only (env_serving 1000)
     ''agkpclldfjffanjojbkhkakaliiohebe'' 1
     (snd (the (downloadExtension direct_only (env_serving 1000)
        ''agkpclldfjffanjojbkhkakaliiohebe'' 1 empty_world)))))) = Success"
proof -
  let ?id = "''agkpclldfjffanjojbkhkakaliiohebe''"
  let ?fp = "''./downloads/crx_extensions/agkpclldfjffanjojbkhkakaliiohebe.zip''"
  let ?url = "''https://example.org/a.crx''"
  let ?E = "env_serving 1000"
  have pj: "path_join (downloadDir direct_only) (?id @ ''.zip'') = Inr ?fp"
    by (simp add: path_join_def)
  have na: "existingArtifact empty_world ?fp = None"
    by (simp add: existingArtifact_def empty_world_def)
  from serving_success [OF pj na, of 1000 1] obtain w1 where
    e1: "downloadExtension direct_only ?E ?id 1 empty_world =
      Some (\<lparr> extensionId = ?id, status = Success, strategy = Some ''directapi'',
             filepath = Some ?fp, size_bytes = Some 1000, err = None \<rparr>, w1)"
    and f1: "files w1 ?fp = Some 1000"
    by (auto simp: empty_world_def)
  have h: "http_get ?E (emit (HttpGet ?url) w1) ?url = Response 200 ''OK'' None (BodyFinish 1000)"
    by (simp add: env_serving_def env_answering_def)
  from boundary_size_accepted_but_not_skipped
    [where c = direct_only and env = ?E and extId = ?id and fp = ?fp and url = ?url
       and v = w1 and msg = "''OK''" and loc = None] pj h f1
  have na1: "existingArtifact w1 ?fp = None"
    and "downloadFileDirectly direct_only ?E ?url ?id w1 =
        Some (Inr (DlSuccess ?fp 1000), write_file ?fp 1000 (emit (HttpGet ?url) w1))"
    by simp_all
  from serving_success [OF pj na1, of 1000 1] obtain w2 where
    e2: "downloadExtension direct_only ?E ?id 1 w1 =
      Some (\<lparr> extensionId = ?id, status = Success, strategy = Some ''directapi'',
             filepath = Some ?fp, size_bytes = Some 1000, err = None \<rparr>, w2)"
    by auto
  from boundary_size_accepted_but_not_skipped
    [where c = direct_only and env = ?E and extId = ?id and ?a1.0 = 1 and w = empty_world
       and ?w1.0 = w1 and ?a2.0 = 1 and ?w2.0 = w2] e1 e2
  have "status (fst (the (downloadExtension direct_only ?E ?id 1 w1))) \<noteq> Skipped"
    by simp
  with e1 e2 f1 show ?thesis by simp
qed

end
